theory Spec2Isabelle
  imports Main "HOL-Library.Word" "HOL-Library.AList"
begin

unbundle bit_operations_syntax

section \<open>JavaScript values and strings\<close>

text \<open>
  The background script of the avatar plugin (class \<open>EnhancedAvatarCardManager\<close>) is
  embedded function by function. JavaScript strings are modelled as \<open>string\<close>: a list of
  code units below 256, a code unit from 128 on being the Latin-1 character of that number.
  On these strings \<open>toLowerCase\<close> and \<open>trim\<close> are exactly the functions below.
  \<open>toUpperCase\<close> is exact on ASCII only: JavaScript maps some code units from 128 on to
  two characters or to code units above 255, which the model leaves unchanged, so every
  statement about upper-casing is made for ASCII input.
\<close>

definition ascii :: "string \<Rightarrow> bool" where
  "ascii s = list_all (\<lambda>c. (of_char c :: nat) < 128) s"

definition lower_letters :: string where
  "lower_letters = ''abcdefghijklmnopqrstuvwxyz''"

definition upper_letters :: string where
  "upper_letters = ''ABCDEFGHIJKLMNOPQRSTUVWXYZ''"

definition toUpperCase_char :: "char \<Rightarrow> char" where
  "toUpperCase_char c =
     (case map_of (zip lower_letters upper_letters) c of Some u \<Rightarrow> u | None \<Rightarrow> c)"

text \<open>The capital letters of Latin-1 from 128 on: 192 to 222 without the multiplication
  sign 215; the small letter is 32 higher.\<close>

definition latin1_capital :: "char \<Rightarrow> bool" where
  "latin1_capital c =
     (192 \<le> (of_char c :: nat) \<and> (of_char c :: nat) \<le> 222 \<and> (of_char c :: nat) \<noteq> 215)"

definition toLowerCase_char :: "char \<Rightarrow> char" where
  "toLowerCase_char c =
     (case map_of (zip upper_letters lower_letters) c of
        Some l \<Rightarrow> l
      | None \<Rightarrow> if latin1_capital c then char_of ((of_char c :: nat) + 32) else c)"

definition toUpperCase :: "string \<Rightarrow> string" where
  "toUpperCase s = map toUpperCase_char s"

definition toLowerCase :: "string \<Rightarrow> string" where
  "toLowerCase s = map toLowerCase_char s"

text \<open>White space of \<open>String.prototype.trim\<close> among the code units below 256:
  TAB, LF, VT, FF, CR, space and the no-break space.\<close>

definition is_space :: "char \<Rightarrow> bool" where
  "is_space c = ((of_char c :: nat) \<in> {9, 10, 11, 12, 13, 32, 160})"

definition trim :: "string \<Rightarrow> string" where
  "trim s = rev (dropWhile is_space (rev (dropWhile is_space s)))"

text \<open>\<open>s.split(c)\<close> for a one-character separator: never the empty array.\<close>

fun split_js :: "char \<Rightarrow> string \<Rightarrow> string list" where
  "split_js c [] = [[]]"
| "split_js c (x # xs) =
     (if x = c then [] # split_js c xs
      else (case split_js c xs of [] \<Rightarrow> [[x]] | p # ps \<Rightarrow> (x # p) # ps))"

text \<open>\<open>s.charAt(0)\<close>: the first code unit as a string, the empty string when there is none.\<close>

definition charAt0 :: "string \<Rightarrow> string" where
  "charAt0 s = take 1 s"

text \<open>Values of the settings object: booleans and integers. A missing property reads as
  \<open>undefined\<close>, modelled by \<open>None\<close>.\<close>

datatype jsval = JBool bool | JNum int

type_synonym jsobj = "string \<rightharpoonup> jsval"

text \<open>Truthiness of a property read, as tested by \<open>if (this.settings.enableFavicon)\<close>.\<close>

fun truthy :: "jsval option \<Rightarrow> bool" where
  "truthy None = False"
| "truthy (Some (JBool b)) = b"
| "truthy (Some (JNum n)) = (n \<noteq> 0)"

text \<open>\<open>ToNumber\<close>: \<open>undefined\<close> is NaN (\<open>None\<close>), \<open>true\<close> is 1, \<open>false\<close> is 0.\<close>

fun ToNumber :: "jsval option \<Rightarrow> int option" where
  "ToNumber None = None"
| "ToNumber (Some (JBool b)) = Some (if b then 1 else 0)"
| "ToNumber (Some (JNum n)) = Some n"

text \<open>The comparisons \<open>a < v\<close>, \<open>a > v\<close> and \<open>a >= v\<close> of a number with a property read:
  false whenever the right-hand side is NaN.\<close>

definition js_lt :: "int \<Rightarrow> jsval option \<Rightarrow> bool" where
  "js_lt a v = (case ToNumber v of None \<Rightarrow> False | Some b \<Rightarrow> a < b)"

definition js_gt :: "int \<Rightarrow> jsval option \<Rightarrow> bool" where
  "js_gt a v = (case ToNumber v of None \<Rightarrow> False | Some b \<Rightarrow> a > b)"

definition js_ge :: "int \<Rightarrow> jsval option \<Rightarrow> bool" where
  "js_ge a v = (case ToNumber v of None \<Rightarrow> False | Some b \<Rightarrow> a \<ge> b)"

text \<open>Decimal digits of a natural number, and \<open>String(v)\<close> as a template literal
  \<open>${v}\<close> prints a property read.\<close>

fun digits :: "nat \<Rightarrow> string" where
  "digits n =
     (if n < 10 then [''0123456789'' ! n] else digits (n div 10) @ [''0123456789'' ! (n mod 10)])"

declare digits.simps [simp del]

definition int_to_string :: "int \<Rightarrow> string" where
  "int_to_string i = (if i < 0 then CHR ''-'' # digits (nat (- i)) else digits (nat i))"

fun ToString :: "jsval option \<Rightarrow> string" where
  "ToString None = ''undefined''"
| "ToString (Some (JBool b)) = (if b then ''true'' else ''false'')"
| "ToString (Some (JNum n)) = int_to_string n"

section \<open>Errors and results\<close>

text \<open>An exception thrown by the script, or a rejected promise: \<open>Error msg\<close> is
  \<open>throw new Error(msg)\<close>, \<open>ReferenceError x\<close> is the read of an identifier \<open>x\<close> that no
  enclosing scope binds, \<open>FetchFailed\<close> is a \<open>fetch\<close> that rejects, \<open>StorageError\<close> a
  rejected write to \<open>browser.storage.local\<close>.\<close>

datatype error = Error string | ReferenceError string | FetchFailed | StorageError

datatype avatar_type = favicon | company_logo | google_favicon | business_initials

record avatar =
  av_url :: string
  av_type :: avatar_type
  av_domain :: "string option"
  av_size :: "jsval option"
  av_email :: string
  av_initials :: "string option"

section \<open>Address helpers\<close>

text \<open>\<open>extractDomain\<close>: the regular expression \<open>/@([^@]+\.[^@]+)$/\<close> matches at an \<open>@\<close> whose
  rest of the string has no further \<open>@\<close> and a dot that is neither its first nor its last
  character; the scan takes the leftmost such \<open>@\<close>.\<close>

definition domain_group :: "string \<Rightarrow> bool" where
  "domain_group cs = (CHR ''@'' \<notin> set cs \<and> CHR ''.'' \<in> set (butlast (tl cs)))"

fun domain_match :: "string \<Rightarrow> string option" where
  "domain_match [] = None"
| "domain_match (c # cs) = (if c = CHR ''@'' \<and> domain_group cs then Some cs else domain_match cs)"

definition extractDomain :: "string \<Rightarrow> string option" where
  "extractDomain email =
     (if email = [] then None
      else (case domain_match email of Some m \<Rightarrow> Some (toLowerCase m) | None \<Rightarrow> None))"

definition generateBusinessInitials :: "string \<Rightarrow> string" where
  "generateBusinessInitials email =
     (let localPart = hd (split_js (CHR ''@'') email) in
      if CHR ''.'' \<in> set localPart then
        concat (map (\<lambda>part. toUpperCase (charAt0 part)) (take 2 (split_js (CHR ''.'') localPart)))
      else if CHR ''-'' \<in> set localPart then
        concat (map (\<lambda>part. toUpperCase (charAt0 part)) (take 2 (split_js (CHR ''-'') localPart)))
      else if length localPart \<ge> 2 then toUpperCase (take 2 localPart)
      else concat (replicate 2 (toUpperCase (charAt0 localPart))))"

section \<open>Colour selection\<close>

record colors =
  primary :: string
  secondary :: string
  border :: string

definition colorSchemes :: "colors list" where
  "colorSchemes =
    [\<lparr>primary = ''#1e40af'', secondary = ''#3b82f6'', border = ''#1d4ed8''\<rparr>,
     \<lparr>primary = ''#047857'', secondary = ''#10b981'', border = ''#059669''\<rparr>,
     \<lparr>primary = ''#7c2d12'', secondary = ''#ea580c'', border = ''#c2410c''\<rparr>,
     \<lparr>primary = ''#581c87'', secondary = ''#8b5cf6'', border = ''#7c3aed''\<rparr>,
     \<lparr>primary = ''#374151'', secondary = ''#6b7280'', border = ''#4b5563''\<rparr>,
     \<lparr>primary = ''#b91c1c'', secondary = ''#ef4444'', border = ''#dc2626''\<rparr>,
     \<lparr>primary = ''#0f766e'', secondary = ''#14b8a6'', border = ''#0d9488''\<rparr>,
     \<lparr>primary = ''#92400e'', secondary = ''#f59e0b'', border = ''#d97706''\<rparr>]"

text \<open>The loop of \<open>getBusinessColors\<close>: \<open>hash = ((hash << 5) - hash) + char; hash = hash & hash\<close>
  keeps \<open>hash\<close> a signed 32-bit integer, so each round is arithmetic modulo \<open>2 ^ 32\<close>.\<close>

fun hash_loop :: "32 word \<Rightarrow> string \<Rightarrow> 32 word" where
  "hash_loop hash [] = hash"
| "hash_loop hash (c # cs) = hash_loop (push_bit 5 hash - hash + of_char c) cs"

text \<open>\<open>getBusinessColors(domain)\<close>. Its input is \<open>domain || email || 'default'\<close>. A non-empty
  domain is truthy and is the input. For a \<open>null\<close> (or empty) domain the second operand is
  evaluated: \<open>email\<close> is neither a parameter nor a local of this method, and the script
  declares no global of that name, so the read throws a \<open>ReferenceError\<close>.
  \<open>Math.abs(hash) % 8\<close> is below 8, inside the table.\<close>

definition getBusinessColors :: "string option \<Rightarrow> error + colors" where
  "getBusinessColors domain =
     (case domain of
        Some (c # cs) \<Rightarrow>
          Inr (colorSchemes ! (nat \<bar>sint (hash_loop 0 (c # cs))\<bar> mod length colorSchemes))
      | _ \<Rightarrow> Inl (ReferenceError ''email''))"

section \<open>Generated initials\<close>

text \<open>\<open>btoa\<close> of the platform: Base64 of a string of code units below 256 (for larger
  code units it throws; the strings of this model have none).\<close>

definition b64 :: "nat \<Rightarrow> char" where
  "b64 n = ''ABCDEFGHIJKLMNOPQRSTUVWXYZabcdefghijklmnopqrstuvwxyz0123456789+/'' ! (n mod 64)"

fun btoa :: "string \<Rightarrow> string" where
  "btoa [] = []"
| "btoa [a] =
     (let n = of_char a * 65536 in
      [b64 (n div 262144), b64 (n div 4096), CHR ''='', CHR ''=''])"
| "btoa [a, b] =
     (let n = of_char a * 65536 + of_char b * 256 in
      [b64 (n div 262144), b64 (n div 4096), b64 (n div 64), CHR ''=''])"
| "btoa (a # b # c # rest) =
     (let n = of_char a * 65536 + of_char b * 256 + of_char c in
      [b64 (n div 262144), b64 (n div 4096), b64 (n div 64), b64 n] @ btoa rest)"

text \<open>The template literal of \<open>createBusinessInitials\<close>, with its \<open>.trim()\<close>;
  \<open>sz\<close> is the text of \<open>${this.settings.avatarSize}\<close>.\<close>

definition business_svg :: "string \<Rightarrow> colors \<Rightarrow> string \<Rightarrow> string" where
\<open>business_svg sz c initials = trim (
     ''\<newline>'' @
     ''      <svg width="'' @ sz @ ''" height="'' @ sz @
     ''" viewBox="0 0 64 64" xmlns="http://www.w3.org/2000/svg">\<newline>'' @
     ''        <defs>\<newline>'' @
     ''          <linearGradient id="businessGrad" x1="0%" y1="0%" x2="100%" y2="100%">\<newline>'' @
     ''            <stop offset="0%" style="stop-color:'' @ primary c @
     '';stop-opacity:1" />\<newline>'' @
     ''            <stop offset="100%" style="stop-color:'' @ secondary c @
     '';stop-opacity:1" />\<newline>'' @
     ''          </linearGradient>\<newline>'' @
     ''          <filter id="shadow" x="-50%" y="-50%" width="200%" height="200%">\<newline>'' @
     ''            <feDropShadow dx="1" dy="2" stdDeviation="2" flood-color="#000000" flood-opacity="0.2"/>\<newline>'' @
     ''          </filter>\<newline>'' @
     ''        </defs>\<newline>'' @
     ''        <circle cx="32" cy="32" r="30" fill="url(#businessGrad)" stroke="'' @ border c @
     ''" stroke-width="1.5" filter="url(#shadow)"/>\<newline>'' @
     ''        <text x="32" y="40" text-anchor="middle" fill="white" font-family="-apple-system, BlinkMacSystemFont, 'Segoe UI', system-ui, sans-serif" font-size="18" font-weight="600" letter-spacing="0.5px">'' @
     initials @ ''</text>\<newline>'' @
     ''      </svg>\<newline>'' @
     ''    '')\<close>

text \<open>\<open>createBusinessInitials(email, domain)\<close>, with the settings object it reads. The
  initials are computed first, then the colours: an exception of \<open>getBusinessColors\<close>
  leaves the method before the image is built.\<close>

definition createBusinessInitials :: "jsobj \<Rightarrow> string \<Rightarrow> string option \<Rightarrow> error + avatar" where
  "createBusinessInitials settings email domain =
     (let initials = generateBusinessInitials email in
      case getBusinessColors domain of
        Inl e \<Rightarrow> Inl e
      | Inr colors \<Rightarrow>
          (let svg = business_svg (ToString (settings ''avatarSize'')) colors initials in
           Inr \<lparr>av_url = ''data:image/svg+xml;base64,'' @ btoa svg,
                av_type = business_initials,
                av_domain = domain,
                av_size = settings ''avatarSize'',
                av_email = email,
                av_initials = Some initials\<rparr>))"

section \<open>Network stages\<close>

text \<open>The network is a parameter: what a \<open>HEAD\<close> request to a URL answers, \<open>None\<close> when
  the \<open>fetch\<close> rejects (network error, malformed URL), otherwise \<open>response.ok\<close> and the
  \<open>content-type\<close> header; a URL is answered the same way each time it is asked. Every
  request made is recorded as a \<open>Head\<close> event, every call of
  \<open>fetchAvatar\<close> as \<open>FetchAvatar\<close>, every \<open>this.cache.get\<close> as \<open>CacheGet\<close>.\<close>

datatype response = Response bool "string option"

type_synonym network = "string \<Rightarrow> response option"

datatype event = CacheGet string | FetchAvatar string | Head string

text \<open>\<open>response.ok && response.headers.get('content-type')?.startsWith('image/')\<close>\<close>

fun image_response :: "response \<Rightarrow> bool" where
  "image_response (Response ok None) = False"
| "image_response (Response ok (Some t)) = (ok \<and> take 6 t = ''image/'')"

definition validateImageUrl :: "network \<Rightarrow> string \<Rightarrow> event list \<times> bool" where
  "validateImageUrl net url =
     ([Head url], case net url of None \<Rightarrow> False | Some r \<Rightarrow> image_response r)"

definition knownFavicons :: "(string \<times> string) list" where
  "knownFavicons =
    [(''gmail.com'', ''https://ssl.gstatic.com/ui/v1/icons/mail/rfr/gmail.ico''),
     (''outlook.com'', ''https://outlook.live.com/favicon.ico''),
     (''hotmail.com'', ''https://outlook.live.com/favicon.ico''),
     (''yahoo.com'', ''https://s.yimg.com/rz/l/favicon.ico''),
     (''microsoft.com'', ''https://www.microsoft.com/favicon.ico''),
     (''google.com'', ''https://www.google.com/favicon.ico''),
     (''apple.com'', ''https://www.apple.com/favicon.ico''),
     (''amazon.com'', ''https://www.amazon.com/favicon.ico''),
     (''salesforce.com'',
      ''https://c1.sfdcstatic.com/etc/designs/sfdc-www/dist/images/favicons/favicon-32x32.png'')]"

definition getKnownBusinessFavicon :: "string \<Rightarrow> string option" where
  "getKnownBusinessFavicon domain = map_of knownFavicons domain"

definition faviconUrls :: "string \<Rightarrow> string list" where
  "faviconUrls domain =
    [''https://'' @ domain @ ''/favicon.ico'',
     ''https://www.'' @ domain @ ''/favicon.ico'',
     ''https://'' @ domain @ ''/assets/favicon.ico'',
     ''https://'' @ domain @ ''/images/favicon.ico'',
     ''https://'' @ domain @ ''/favicon.png'',
     ''https://'' @ domain @ ''/apple-touch-icon.png'']"

text \<open>The \<open>for\<close> loop of \<open>getFaviconUrl\<close>: the first candidate that validates.\<close>

fun first_valid :: "network \<Rightarrow> string list \<Rightarrow> event list \<times> string option" where
  "first_valid net [] = ([], None)"
| "first_valid net (url # urls) =
     (let (l, ok) = validateImageUrl net url in
      if ok then (l, Some url)
      else (let (l', r) = first_valid net urls in (l @ l', r)))"

definition getFaviconUrl :: "network \<Rightarrow> string option \<Rightarrow> event list \<times> (error + string)" where
  "getFaviconUrl net domain =
     (case domain of
        Some (c # cs) \<Rightarrow>
          (case getKnownBusinessFavicon (c # cs) of
             Some knownFavicon \<Rightarrow> ([], Inr knownFavicon)
           | None \<Rightarrow>
               (case first_valid net (faviconUrls (c # cs)) of
                  (l, Some url) \<Rightarrow> (l, Inr url)
                | (l, None) \<Rightarrow> (l, Inl (Error (''No favicon found for '' @ c # cs)))))
      | _ \<Rightarrow> ([], Inl (Error ''No domain provided'')))"

definition getCompanyLogo :: "network \<Rightarrow> string option \<Rightarrow> event list \<times> (error + string)" where
  "getCompanyLogo net domain =
     (case domain of
        Some (c # cs) \<Rightarrow>
          (let clearbitUrl = ''https://logo.clearbit.com/'' @ c # cs in
           ([Head clearbitUrl],
            case net clearbitUrl of
              None \<Rightarrow> Inl FetchFailed
            | Some r \<Rightarrow>
                if image_response r then Inr clearbitUrl
                else Inl (Error (''Company logo not found for '' @ c # cs))))
      | _ \<Rightarrow> ([], Inl (Error ''No domain provided'')))"

section \<open>The resolution chain\<close>

text \<open>Each of the three \<open>try\<close> blocks of \<open>getBusinessAvatar\<close>: the descriptor it returns, or
  \<open>None\<close> when it falls through (the candidate does not validate, or the \<open>catch\<close> swallows an
  exception). The only property of the settings a block reads is \<open>avatarSize\<close>.\<close>

definition try_favicon ::
  "jsobj \<Rightarrow> network \<Rightarrow> string \<Rightarrow> string option \<Rightarrow> event list \<times> avatar option" where
  "try_favicon settings net email domain =
     (case getFaviconUrl net domain of
        (l, Inl e) \<Rightarrow> (l, None)
      | (l, Inr faviconUrl) \<Rightarrow>
          (let (l', ok) = validateImageUrl net faviconUrl in
           (l @ l',
            if ok then Some \<lparr>av_url = faviconUrl, av_type = favicon, av_domain = domain,
                            av_size = settings ''avatarSize'', av_email = email,
                            av_initials = None\<rparr>
            else None)))"

definition try_logo ::
  "jsobj \<Rightarrow> network \<Rightarrow> string \<Rightarrow> string option \<Rightarrow> event list \<times> avatar option" where
  "try_logo settings net email domain =
     (case getCompanyLogo net domain of
        (l, Inl e) \<Rightarrow> (l, None)
      | (l, Inr logoUrl) \<Rightarrow>
          (let (l', ok) = validateImageUrl net logoUrl in
           (l @ l',
            if ok then Some \<lparr>av_url = logoUrl, av_type = company_logo, av_domain = domain,
                            av_size = settings ''avatarSize'', av_email = email,
                            av_initials = None\<rparr>
            else None)))"

definition try_google ::
  "jsobj \<Rightarrow> network \<Rightarrow> string \<Rightarrow> string option \<Rightarrow> event list \<times> avatar option" where
  "try_google settings net email domain =
     (let googleFaviconUrl =
            ''https://www.google.com/s2/favicons?domain='' @
            (case domain of None \<Rightarrow> ''null'' | Some d \<Rightarrow> d) @
            ''&sz='' @ ToString (settings ''avatarSize'');
          (l, ok) = validateImageUrl net googleFaviconUrl in
      (l,
       if ok then Some \<lparr>av_url = googleFaviconUrl, av_type = google_favicon, av_domain = domain,
                       av_size = settings ''avatarSize'', av_email = email,
                       av_initials = None\<rparr>
       else None))"

text \<open>\<open>getBusinessAvatar(email)\<close> when \<open>this.settings\<close> is the same object from the start of
  the resolution to its end, that is, when no \<open>updateSettings\<close> runs while it awaits the
  network.\<close>

definition getBusinessAvatar ::
  "jsobj \<Rightarrow> network \<Rightarrow> string \<Rightarrow> event list \<times> (error + avatar)" where
  "getBusinessAvatar settings net email =
     (let domain = extractDomain email;
          (l1, r1) = (if truthy (settings ''enableFavicon'')
                      then try_favicon settings net email domain else ([], None)) in
      case r1 of
        Some a \<Rightarrow> (l1, Inr a)
      | None \<Rightarrow>
          (let (l2, r2) = (if truthy (settings ''enableLogoAPI'')
                           then try_logo settings net email domain else ([], None)) in
           case r2 of
             Some a \<Rightarrow> (l1 @ l2, Inr a)
           | None \<Rightarrow>
               (let (l3, r3) = (if truthy (settings ''enableGoogleFavicon'')
                                then try_google settings net email domain else ([], None)) in
                case r3 of
                  Some a \<Rightarrow> (l1 @ l2 @ l3, Inr a)
                | None \<Rightarrow> (l1 @ l2 @ l3, createBusinessInitials settings email domain))))"

text \<open>The same method when the settings are replaced while it awaits the network. The
  method reads \<open>this.settings\<close> anew at each use, and the object can be replaced only while
  a request is under way. \<open>s0\<close> is \<open>this.settings\<close> when the resolution starts; \<open>s1\<close>, \<open>s2\<close>
  and \<open>s3\<close> are what it is when the first, the second and the third stage has finished.
  A stage that is skipped or sends no request takes no time: the settings after it are
  those before it. The third stage reads \<open>avatarSize\<close> for its URL before the request and
  for the descriptor after it.\<close>

definition try_google_reads ::
  "jsobj \<Rightarrow> jsobj \<Rightarrow> network \<Rightarrow> string \<Rightarrow> string option \<Rightarrow> event list \<times> avatar option" where
  "try_google_reads before after net email domain =
     (let googleFaviconUrl =
            ''https://www.google.com/s2/favicons?domain='' @
            (case domain of None \<Rightarrow> ''null'' | Some d \<Rightarrow> d) @
            ''&sz='' @ ToString (before ''avatarSize'');
          (l, ok) = validateImageUrl net googleFaviconUrl in
      (l,
       if ok then Some \<lparr>av_url = googleFaviconUrl, av_type = google_favicon, av_domain = domain,
                       av_size = after ''avatarSize'', av_email = email,
                       av_initials = None\<rparr>
       else None))"

definition getBusinessAvatar_reads ::
  "jsobj \<Rightarrow> jsobj \<Rightarrow> jsobj \<Rightarrow> jsobj \<Rightarrow> network \<Rightarrow> string \<Rightarrow>
     event list \<times> (error + avatar)" where
  "getBusinessAvatar_reads s0 s1 s2 s3 net email =
     (let domain = extractDomain email;
          (l1, r1) = (if truthy (s0 ''enableFavicon'')
                      then try_favicon s1 net email domain else ([], None)) in
      case r1 of
        Some a \<Rightarrow> (l1, Inr a)
      | None \<Rightarrow>
          (let c1 = (if l1 = [] then s0 else s1);
               (l2, r2) = (if truthy (c1 ''enableLogoAPI'')
                           then try_logo s2 net email domain else ([], None)) in
           case r2 of
             Some a \<Rightarrow> (l1 @ l2, Inr a)
           | None \<Rightarrow>
               (let c2 = (if l2 = [] then c1 else s2);
                    (l3, r3) = (if truthy (c2 ''enableGoogleFavicon'')
                                then try_google_reads c2 s3 net email domain else ([], None)) in
                case r3 of
                  Some a \<Rightarrow> (l1 @ l2 @ l3, Inr a)
                | None \<Rightarrow>
                    (l1 @ l2 @ l3,
                     createBusinessInitials (if l3 = [] then c2 else s3) email domain))))"

section \<open>Manager state\<close>

text \<open>The two \<open>Map\<close>s of the manager keep insertion order, so they are association lists:
  \<open>Map.get\<close> is \<open>map_of\<close>, \<open>Map.set\<close> is \<open>AList.update\<close> (a present key keeps its place, a new
  key goes to the end), \<open>Map.delete\<close> is \<open>AList.delete\<close>, \<open>Map.size\<close> is \<open>length\<close>.

  A promise returned by \<open>fetchAvatar\<close> is a record of its number and of the value it
  settles with (\<open>Inl\<close>: rejected) when the settings are not replaced while it is in
  flight. Besides the fields of the class the state has
  \<open>stored\<close>, the \<open>avatarSettings\<close> entry of \<open>browser.storage.local\<close>, and three fields that
  observe the run: \<open>awaiting\<close>, the calls of \<open>getAvatar\<close> suspended at \<open>await promise\<close>
  (the resolutions in flight); \<open>trace\<close>, the events so far; \<open>promises\<close>, the number of
  promises created.\<close>

record cache_entry =
  data :: avatar
  timestamp :: int

record promise =
  pid :: nat
  settles :: "error + avatar"

record state =
  cache :: "(string \<times> cache_entry) list"
  pendingRequests :: "(string \<times> promise) list"
  settings :: jsobj
  stored :: "jsobj option"
  awaiting :: "(string \<times> promise) list"
  trace :: "event list"
  promises :: nat

definition default_settings :: jsobj where
  "default_settings = map_of
    [(''maxCacheSize'', JNum 200),
     (''cacheExpiry'', JNum (24 * 60 * 60 * 1000)),
     (''avatarSize'', JNum 32),
     (''enableFavicon'', JBool True),
     (''enableLogoAPI'', JBool True),
     (''enableGoogleFavicon'', JBool True)]"

text \<open>The state the constructor builds.\<close>

definition initial_state :: state where
  "initial_state =
     \<lparr>cache = [], pendingRequests = [], settings = default_settings, stored = None,
      awaiting = [], trace = [], promises = 0\<rparr>"

section \<open>Cache operations\<close>

text \<open>\<open>cacheAvatar(email, data)\<close> at time \<open>now\<close>. On an empty cache \<open>firstKey\<close> is
  \<open>undefined\<close> and the delete removes nothing.\<close>

definition cacheAvatar :: "string \<Rightarrow> avatar \<Rightarrow> int \<Rightarrow> state \<Rightarrow> state" where
  "cacheAvatar email d now st =
     (let c = (if js_ge (int (length (cache st))) (settings st ''maxCacheSize'')
               then (case cache st of
                       [] \<Rightarrow> []
                     | (firstKey, v) # rest \<Rightarrow> AList.delete firstKey (cache st))
               else cache st)
      in st\<lparr>cache := AList.update email \<lparr>data = d, timestamp = now\<rparr> c\<rparr>)"

definition cleanCache :: "int \<Rightarrow> state \<Rightarrow> state" where
  "cleanCache now st =
     st\<lparr>cache := filter (\<lambda>(email, cached).
                     \<not> js_gt (now - timestamp cached) (settings st ''cacheExpiry'')) (cache st)\<rparr>"

definition clearCache :: "state \<Rightarrow> state" where
  "clearCache st = st\<lparr>cache := []\<rparr>"

text \<open>\<open>updateSettings(newSettings)\<close>: the spread \<open>{...this.settings, ...newSettings}\<close> is
  map override. \<open>this.avatarManager\<close> is \<open>this\<close>, so the sync branch never runs. The write
  to storage succeeds or rejects (\<open>storage_ok\<close>); the settings are replaced either way.\<close>

definition updateSettings :: "jsobj \<Rightarrow> bool \<Rightarrow> state \<Rightarrow> (error + jsobj) \<times> state" where
  "updateSettings newSettings storage_ok st =
     (let st1 = st\<lparr>settings := settings st ++ newSettings\<rparr> in
      if storage_ok then (Inr (settings st1), st1\<lparr>stored := Some (settings st1)\<rparr>)
      else (Inl StorageError, st1))"

section \<open>getAvatar\<close>

text \<open>The argument of \<open>getAvatar\<close>: \<open>null\<close>, \<open>undefined\<close> or a string. What a call does before
  it suspends or returns: \<open>ReturnedNull\<close>; \<open>Hit d\<close>, the cached descriptor; \<open>Joined p\<close>, the
  pending promise is returned and the caller settles as \<open>p\<close> does; \<open>Started p\<close>, a new
  resolution runs and the call awaits its promise \<open>p\<close>.\<close>

datatype arg = Null | Undefined | Str string

datatype outcome = ReturnedNull | Hit avatar | Joined promise | Started promise

definition fresh_entry :: "int \<Rightarrow> string \<Rightarrow> state \<Rightarrow> avatar option" where
  "fresh_entry now normalizedEmail st =
     (case map_of (cache st) normalizedEmail of
        None \<Rightarrow> None
      | Some cached \<Rightarrow>
          if js_lt (now - timestamp cached) (settings st ''cacheExpiry'')
          then Some (data cached) else None)"

definition getAvatar :: "network \<Rightarrow> int \<Rightarrow> arg \<Rightarrow> state \<Rightarrow> outcome \<times> state" where
  "getAvatar net now a st =
     (case a of
        Str (c # cs) \<Rightarrow>
          (let normalizedEmail = trim (toLowerCase (c # cs));
               st1 = st\<lparr>trace := trace st @ [CacheGet normalizedEmail]\<rparr> in
           case fresh_entry now normalizedEmail st of
             Some d \<Rightarrow> (Hit d, st1)
           | None \<Rightarrow>
               (case map_of (pendingRequests st) normalizedEmail of
                  Some p \<Rightarrow> (Joined p, st1)
                | None \<Rightarrow>
                    (let (evs, res) = getBusinessAvatar (settings st) net normalizedEmail;
                         p = \<lparr>pid = promises st, settles = res\<rparr> in
                     (Started p,
                      st1\<lparr>pendingRequests :=
                              AList.update normalizedEmail p (pendingRequests st),
                          awaiting := awaiting st @ [(normalizedEmail, p)],
                          trace := trace st1 @ FetchAvatar normalizedEmail # evs,
                          promises := Suc (promises st)\<rparr>))))
      | _ \<Rightarrow> (ReturnedNull, st))"

text \<open>The rest of the call that started the resolution, run when its promise has settled:
  on success \<open>cacheAvatar\<close>, and in the \<open>finally\<close> block the delete of the pending entry.\<close>

definition getAvatar_resume :: "string \<Rightarrow> promise \<Rightarrow> int \<Rightarrow> state \<Rightarrow> state" where
  "getAvatar_resume normalizedEmail p now st =
     (let st1 = (case settles p of
                   Inr result \<Rightarrow> cacheAvatar normalizedEmail result now st
                 | Inl e \<Rightarrow> st) in
      st1\<lparr>pendingRequests := AList.delete normalizedEmail (pendingRequests st1)\<rparr>)"

section \<open>The event loop\<close>

text \<open>The script runs on one thread: each action below runs to completion before the next.
  \<open>Settle i now\<close> is the settlement of promise \<open>i\<close>, which resumes the call awaiting it;
  it does nothing when no call awaits \<open>i\<close>.\<close>

datatype action =
    GetAvatar arg int
  | Settle nat int
  | UpdateSettings jsobj bool
  | CleanCache int
  | ClearCache

fun step :: "network \<Rightarrow> state \<Rightarrow> action \<Rightarrow> state" where
  "step net st (GetAvatar a now) = snd (getAvatar net now a st)"
| "step net st (Settle i now) =
     (case find (\<lambda>(email, p). pid p = i) (awaiting st) of
        None \<Rightarrow> st
      | Some (email, p) \<Rightarrow>
          getAvatar_resume email p now
            (st\<lparr>awaiting := filter (\<lambda>(email, p). pid p \<noteq> i) (awaiting st)\<rparr>))"
| "step net st (UpdateSettings newSettings storage_ok) =
     snd (updateSettings newSettings storage_ok st)"
| "step net st (CleanCache now) = cleanCache now st"
| "step net st ClearCache = clearCache st"

definition run :: "network \<Rightarrow> action list \<Rightarrow> state \<Rightarrow> state" where
  "run net acts st = foldl (step net) st acts"

text \<open>\<open>getAvatar\<close> called for the same argument at the given times, nothing settling in
  between: the outcomes of the calls and the state after the last.\<close>

fun getAvatar_calls :: "network \<Rightarrow> arg \<Rightarrow> int list \<Rightarrow> state \<Rightarrow> outcome list \<times> state" where
  "getAvatar_calls net a [] st = ([], st)"
| "getAvatar_calls net a (t # ts) st =
     (let (r, st1) = getAvatar net t a st;
          (rs, st2) = getAvatar_calls net a ts st1 in
      (r # rs, st2))"

text \<open>The number of calls of \<open>fetchAvatar\<close> in a trace.\<close>

fun resolutions :: "event list \<Rightarrow> nat" where
  "resolutions [] = 0"
| "resolutions (FetchAvatar email # es) = Suc (resolutions es)"
| "resolutions (e # es) = resolutions es"

text \<open>Two networks for concrete runs: one where every request is rejected, one where every
  request answers with an image.\<close>

definition offline :: network where
  "offline url = None"

definition all_images :: network where
  "all_images url = Some (Response True (Some ''image/png''))"

section \<open>Invariant and sample values\<close>

text \<open>The invariant of the pending table: it lists exactly the resolutions in flight, no
  address twice and no promise twice, and every promise in it has a number already used.\<close>

definition dedup_inv :: "state \<Rightarrow> bool" where
  "dedup_inv st =
     (pendingRequests st = awaiting st \<and>
      distinct (map fst (awaiting st)) \<and>
      distinct (map (\<lambda>(email, p). pid p) (awaiting st)) \<and>
      list_all (\<lambda>(email, p). pid p < promises st) (awaiting st))"

text \<open>The local part as \<open>generateBusinessInitials\<close> takes it, letters, and what
  ``1--2 uppercase letters'' means.\<close>

definition local_part :: "string \<Rightarrow> string" where
  "local_part email = hd (split_js (CHR ''@'') email)"

definition is_letter :: "char \<Rightarrow> bool" where
  "is_letter c = (c \<in> set lower_letters \<or> c \<in> set upper_letters)"

definition uppercase_initials :: "string \<Rightarrow> bool" where
  "uppercase_initials r = (1 \<le> length r \<and> length r \<le> 2 \<and> list_all (\<lambda>c. c \<in> set upper_letters) r)"

text \<open>Values for concrete runs: the descriptor of the known Gmail favicon; the settings
  with \<open>maxCacheSize\<close> 2; \<open>two_full\<close>, the state after that update and the resolution of two
  addresses, its cache at capacity; \<open>roomy\<close>, the same cache with room for a third entry;
  \<open>no_fallbacks\<close>, the default settings with the logo and the Google stage switched off;
  a first call for an address and two more calls before its resolution settles.\<close>

definition gmail_avatar :: "string \<Rightarrow> avatar" where
  "gmail_avatar email =
     \<lparr>av_url = ''https://ssl.gstatic.com/ui/v1/icons/mail/rfr/gmail.ico'', av_type = favicon,
      av_domain = Some ''gmail.com'', av_size = Some (JNum 32), av_email = email,
      av_initials = None\<rparr>"

definition two_cfg :: jsobj where
  "two_cfg = default_settings ++ [''maxCacheSize'' \<mapsto> JNum 2]"

definition two_full :: state where
  "two_full = run all_images
     [UpdateSettings [''maxCacheSize'' \<mapsto> JNum 2] True,
      GetAvatar (Str ''a@gmail.com'') 1, Settle 0 2,
      GetAvatar (Str ''b@gmail.com'') 3, Settle 1 4] initial_state"

definition no_fallbacks :: jsobj where
  "no_fallbacks =
     default_settings ++ [''enableLogoAPI'' \<mapsto> JBool False, ''enableGoogleFavicon'' \<mapsto> JBool False]"

definition roomy :: state where
  "roomy = snd (updateSettings [''maxCacheSize'' \<mapsto> JNum 3] True two_full)"

definition first_call :: "outcome \<times> state" where
  "first_call = getAvatar all_images 1 (Str ''a@gmail.com'') (run all_images [] initial_state)"

definition later_calls :: "outcome list \<times> state" where
  "later_calls = getAvatar_calls all_images (Str ''a@gmail.com'') [2, 3] (snd first_call)"

section \<open>Evaluation lemmas\<close>

text \<open>\<open>toLowerCase\<close> on Latin-1: capital E acute and capital thorn get small, the
  multiplication sign and the sharp s stay.\<close>

lemma toLowerCase_latin1:
  "toLowerCase [CHR 0xC9, CHR 0xD7, CHR 0xDE, CHR ''A'', CHR 0xDF] =
     [CHR 0xE9, CHR 0xD7, CHR 0xFE, CHR ''a'', CHR 0xDF]"
  by code_simp

lemma update_absent: "map_of al k = None \<Longrightarrow> AList.update k v al = al @ [(k, v)]"
  by (induction al) (auto split: if_splits)

lemma cacheAvatar_frame:
  "pendingRequests (cacheAvatar email d now st) = pendingRequests st"
  "awaiting (cacheAvatar email d now st) = awaiting st"
  "promises (cacheAvatar email d now st) = promises st"
  "trace (cacheAvatar email d now st) = trace st"
  "settings (cacheAvatar email d now st) = settings st"
  by (simp_all add: cacheAvatar_def Let_def)

lemma find_SomeD: "find P xs = Some x \<Longrightarrow> x \<in> set xs \<and> P x"
  by (induction xs) (auto split: if_splits)

lemma find_unique:
  "distinct (map f xs) \<Longrightarrow> x \<in> set xs \<Longrightarrow> find (\<lambda>y. f y = f x) xs = Some x"
  by (induction xs) (auto simp: image_iff)

lemma filter_key_absent:
  "k \<notin> fst ` set aw \<Longrightarrow> filter (\<lambda>(k', q). k' = k) aw = []"
  by (induction aw) auto

lemma filter_key_unique:
  "distinct (map fst aw) \<Longrightarrow> (k, p) \<in> set aw \<Longrightarrow>
   filter (\<lambda>(k', q). k' = k) aw = [(k, p)]"
  by (induction aw) (auto simp: filter_key_absent image_iff)

lemma norm_ag: "trim (toLowerCase ''a@gmail.com'') = ''a@gmail.com''"
  by (simp add: trim_def toLowerCase_def toLowerCase_char_def latin1_capital_def upper_letters_def lower_letters_def is_space_def)

lemma norm_bg: "trim (toLowerCase ''b@gmail.com'') = ''b@gmail.com''"
  by (simp add: trim_def toLowerCase_def toLowerCase_char_def latin1_capital_def upper_letters_def lower_letters_def is_space_def)

lemma norm_cg: "trim (toLowerCase ''c@gmail.com'') = ''c@gmail.com''"
  by (simp add: trim_def toLowerCase_def toLowerCase_char_def latin1_capital_def upper_letters_def lower_letters_def is_space_def)

lemma norm_nae: "trim (toLowerCase ''not-an-email'') = ''not-an-email''"
  by (simp add: trim_def toLowerCase_def toLowerCase_char_def latin1_capital_def upper_letters_def lower_letters_def is_space_def)

lemma dom_a: "extractDomain ''a@gmail.com'' = Some ''gmail.com''"
  by (simp add: extractDomain_def domain_group_def toLowerCase_def toLowerCase_char_def latin1_capital_def upper_letters_def lower_letters_def)

lemma dom_b: "extractDomain ''b@gmail.com'' = Some ''gmail.com''"
  by (simp add: extractDomain_def domain_group_def toLowerCase_def toLowerCase_char_def latin1_capital_def upper_letters_def lower_letters_def)

lemma dom_c: "extractDomain ''c@gmail.com'' = Some ''gmail.com''"
  by (simp add: extractDomain_def domain_group_def toLowerCase_def toLowerCase_char_def latin1_capital_def upper_letters_def lower_letters_def)

lemma dom_x: "extractDomain ''a@x.com'' = Some ''x.com''"
  by (simp add: extractDomain_def domain_group_def toLowerCase_def toLowerCase_char_def latin1_capital_def
      upper_letters_def lower_letters_def)

lemma dom_nae: "extractDomain ''not-an-email'' = None"
  by (simp add: extractDomain_def domain_group_def)

lemma known_gmail: "getKnownBusinessFavicon ''gmail.com'' = Some ''https://ssl.gstatic.com/ui/v1/icons/mail/rfr/gmail.ico''"
  by (simp add: getKnownBusinessFavicon_def knownFavicons_def)

lemma int_to_string_32: "int_to_string 32 = ''32''"
  by (simp add: int_to_string_def digits.simps)

lemma getBusinessAvatar_known:
  assumes "extractDomain email = Some (c # cs)"
    and "truthy (s ''enableFavicon'')"
    and "getKnownBusinessFavicon (c # cs) = Some u"
    and "net u = Some (Response True (Some ct))"
    and "take 6 ct = ''image/''"
  shows "getBusinessAvatar s net email =
     ([Head u], Inr \<lparr>av_url = u, av_type = favicon, av_domain = Some (c # cs),
                      av_size = s ''avatarSize'', av_email = email, av_initials = None\<rparr>)"
  using assms
  by (simp add: getBusinessAvatar_def try_favicon_def getFaviconUrl_def validateImageUrl_def)

lemma gba_a: "truthy (s ''enableFavicon'') \<Longrightarrow> s ''avatarSize'' = Some (JNum 32) \<Longrightarrow>
  getBusinessAvatar s all_images ''a@gmail.com'' =
    ([Head ''https://ssl.gstatic.com/ui/v1/icons/mail/rfr/gmail.ico''], Inr (gmail_avatar ''a@gmail.com''))"
  using getBusinessAvatar_known [OF dom_a _ known_gmail, of s all_images "''image/png''"]
  by (simp add: all_images_def gmail_avatar_def)

lemma gba_b: "truthy (s ''enableFavicon'') \<Longrightarrow> s ''avatarSize'' = Some (JNum 32) \<Longrightarrow>
  getBusinessAvatar s all_images ''b@gmail.com'' =
    ([Head ''https://ssl.gstatic.com/ui/v1/icons/mail/rfr/gmail.ico''], Inr (gmail_avatar ''b@gmail.com''))"
  using getBusinessAvatar_known [OF dom_b _ known_gmail, of s all_images "''image/png''"]
  by (simp add: all_images_def gmail_avatar_def)

lemma gba_c: "truthy (s ''enableFavicon'') \<Longrightarrow> s ''avatarSize'' = Some (JNum 32) \<Longrightarrow>
  getBusinessAvatar s all_images ''c@gmail.com'' =
    ([Head ''https://ssl.gstatic.com/ui/v1/icons/mail/rfr/gmail.ico''], Inr (gmail_avatar ''c@gmail.com''))"
  using getBusinessAvatar_known [OF dom_c _ known_gmail, of s all_images "''image/png''"]
  by (simp add: all_images_def gmail_avatar_def)

lemma two_cfg_simps:
  "two_cfg ''maxCacheSize'' = Some (JNum 2)"
  "two_cfg ''cacheExpiry'' = Some (JNum 86400000)"
  "two_cfg ''avatarSize'' = Some (JNum 32)"
  "two_cfg ''enableFavicon'' = Some (JBool True)"
  by (simp_all add: two_cfg_def default_settings_def)

lemma two_cfg_fold: "default_settings(''maxCacheSize'' \<mapsto> JNum 2) = two_cfg"
  by (simp add: two_cfg_def)

lemma getAvatar_start:
  assumes "email \<noteq> []"
    and "fresh_entry t (trim (toLowerCase email)) st = None"
    and "map_of (pendingRequests st) (trim (toLowerCase email)) = None"
    and "getBusinessAvatar (settings st) net (trim (toLowerCase email)) = (evs, res)"
  shows "getAvatar net t (Str email) st =
     (Started \<lparr>pid = promises st, settles = res\<rparr>,
      st\<lparr>pendingRequests := pendingRequests st @
             [(trim (toLowerCase email), \<lparr>pid = promises st, settles = res\<rparr>)],
         awaiting := awaiting st @
             [(trim (toLowerCase email), \<lparr>pid = promises st, settles = res\<rparr>)],
         trace := trace st @ CacheGet (trim (toLowerCase email)) #
                  FetchAvatar (trim (toLowerCase email)) # evs,
         promises := Suc (promises st)\<rparr>)"
proof -
  from assms(1) obtain c cs where e: "email = c # cs" by (cases email) auto
  with assms(2,3,4) show ?thesis
    by (simp add: getAvatar_def Let_def update_absent)
qed

lemma getAvatar_hit:
  assumes "email \<noteq> []"
    and "fresh_entry t (trim (toLowerCase email)) st = Some d"
  shows "getAvatar net t (Str email) st =
     (Hit d, st\<lparr>trace := trace st @ [CacheGet (trim (toLowerCase email))]\<rparr>)"
proof -
  from assms(1) obtain c cs where e: "email = c # cs" by (cases email) auto
  with assms(2) show ?thesis by (simp add: getAvatar_def Let_def)
qed

lemma getAvatar_join:
  assumes "email \<noteq> []"
    and "fresh_entry t (trim (toLowerCase email)) st = None"
    and "map_of (pendingRequests st) (trim (toLowerCase email)) = Some p"
  shows "getAvatar net t (Str email) st =
           (Joined p, st\<lparr>trace := trace st @ [CacheGet (trim (toLowerCase email))]\<rparr>)"
proof -
  from assms(1) obtain c cs where e: "email = c # cs" by (cases email) auto
  with assms(2,3) show ?thesis by (simp add: getAvatar_def Let_def)
qed

lemma two_full_eval:
  "two_full =
     \<lparr>cache = [(''a@gmail.com'', \<lparr>data = gmail_avatar ''a@gmail.com'', timestamp = 2\<rparr>),
               (''b@gmail.com'', \<lparr>data = gmail_avatar ''b@gmail.com'', timestamp = 4\<rparr>)],
      pendingRequests = [],
      settings = two_cfg,
      stored = Some two_cfg,
      awaiting = [],
      trace = [CacheGet ''a@gmail.com'', FetchAvatar ''a@gmail.com'',
               Head ''https://ssl.gstatic.com/ui/v1/icons/mail/rfr/gmail.ico'',
               CacheGet ''b@gmail.com'', FetchAvatar ''b@gmail.com'',
               Head ''https://ssl.gstatic.com/ui/v1/icons/mail/rfr/gmail.ico''],
      promises = 2\<rparr>"
  unfolding two_full_def
  by (simp add: run_def initial_state_def getAvatar_def getAvatar_resume_def
      cacheAvatar_def updateSettings_def fresh_entry_def js_lt_def js_ge_def
      norm_ag norm_bg gba_a gba_b two_cfg_simps two_cfg_fold Let_def)

lemma two_full_fields:
  "cache two_full =
     [(''a@gmail.com'', \<lparr>data = gmail_avatar ''a@gmail.com'', timestamp = 2\<rparr>),
      (''b@gmail.com'', \<lparr>data = gmail_avatar ''b@gmail.com'', timestamp = 4\<rparr>)]"
  "pendingRequests two_full = []"
  "settings two_full = two_cfg"
  "promises two_full = 2"
  by (simp_all add: two_full_eval)

lemma first_call_eval:
  "first_call =
     (Started \<lparr>pid = 0, settles = Inr (gmail_avatar ''a@gmail.com'')\<rparr>,
      initial_state\<lparr>pendingRequests :=
          [(''a@gmail.com'', \<lparr>pid = 0, settles = Inr (gmail_avatar ''a@gmail.com'')\<rparr>)],
        awaiting :=
          [(''a@gmail.com'', \<lparr>pid = 0, settles = Inr (gmail_avatar ''a@gmail.com'')\<rparr>)],
        trace := [CacheGet ''a@gmail.com'', FetchAvatar ''a@gmail.com'',
                  Head ''https://ssl.gstatic.com/ui/v1/icons/mail/rfr/gmail.ico''],
        promises := 1\<rparr>)"
  by (simp add: first_call_def run_def getAvatar_def fresh_entry_def norm_ag initial_state_def
      gba_a default_settings_def Let_def)

section \<open>The terminal branch\<close>

lemma createBusinessInitials_no_domain:
  "createBusinessInitials s email None = Inl (ReferenceError ''email'')"
  by (simp add: createBusinessInitials_def getBusinessColors_def)

lemma extractDomain_localhost: "extractDomain ''root@localhost'' = None"
  by (simp add: extractDomain_def domain_group_def)

lemma gba_nae: "getBusinessAvatar default_settings offline ''not-an-email'' =
     ([Head ''https://www.google.com/s2/favicons?domain=null&sz=32''],
      Inl (ReferenceError ''email''))"
  by (simp add: getBusinessAvatar_def dom_nae default_settings_def
      try_favicon_def try_logo_def try_google_def getFaviconUrl_def getCompanyLogo_def
      validateImageUrl_def offline_def createBusinessInitials_no_domain int_to_string_32)

text \<open>
  C1. The claim: resolution always produces a descriptor, and \<open>createBusinessInitials\<close>
  returns one even when the derived domain is absent. The code at an address whose domain
  is absent: \<open>root@localhost\<close> has no dot after the \<open>@\<close>, so \<open>extractDomain\<close> is \<open>null\<close>; with the
  default settings and every request failing, the favicon and logo stages throw
  \<open>No domain provided\<close> (caught), the Google stage does not validate, and
  \<open>createBusinessInitials\<close> throws the \<open>ReferenceError\<close> of \<open>getBusinessColors\<close>: the
  resolution is rejected, no descriptor is produced.
\<close>

theorem resolve_absent_domain_throws:
  "extractDomain ''root@localhost'' = None \<and>
   getBusinessAvatar default_settings offline ''root@localhost'' =
     ([Head ''https://www.google.com/s2/favicons?domain=null&sz=32''],
      Inl (ReferenceError ''email''))"
  by (simp add: getBusinessAvatar_def extractDomain_localhost default_settings_def
      try_favicon_def try_logo_def try_google_def getFaviconUrl_def getCompanyLogo_def
      validateImageUrl_def offline_def createBusinessInitials_no_domain int_to_string_32)

section \<open>Invalid addresses\<close>

text \<open>
  C2, the claim as stated fails: \<open>not-an-email\<close> has no domain, yet \<open>getAvatar\<close> raises no
  \<open>InvalidAddress\<close>; it starts a resolution for it, which calls \<open>fetchAvatar\<close> and sends a
  request.
\<close>

theorem not_an_email_is_resolved:
  "extractDomain ''not-an-email'' = None \<and>
   fst (getAvatar offline 0 (Str ''not-an-email'') initial_state) =
     Started \<lparr>pid = 0, settles = Inl (ReferenceError ''email'')\<rparr> \<and>
   trace (snd (getAvatar offline 0 (Str ''not-an-email'') initial_state)) =
     [CacheGet ''not-an-email'', FetchAvatar ''not-an-email'',
      Head ''https://www.google.com/s2/favicons?domain=null&sz=32'']"
  by (simp add: dom_nae getAvatar_def norm_nae fresh_entry_def initial_state_def gba_nae Let_def)

text \<open>
  C2, as the code has it. The empty string is answered with \<open>null\<close> and nothing else
  happens. A non-empty input from which \<open>extractDomain\<close> derives no domain is not rejected:
  when the cache has no fresh entry for it and nothing is pending, \<open>getAvatar\<close> starts the
  resolution \<open>getBusinessAvatar\<close> for it, with the absent domain.
\<close>

theorem invalid_address_handling:
  assumes "email \<noteq> []"
    and "extractDomain (trim (toLowerCase email)) = None"
    and "fresh_entry now (trim (toLowerCase email)) st = None"
    and "map_of (pendingRequests st) (trim (toLowerCase email)) = None"
  shows "getAvatar net now (Str []) st = (ReturnedNull, st) \<and>
         fst (getAvatar net now (Str email) st) =
           Started \<lparr>pid = promises st,
                    settles = snd (getBusinessAvatar (settings st) net (trim (toLowerCase email)))\<rparr> \<and>
         trace (snd (getAvatar net now (Str email) st)) =
           trace st @ CacheGet (trim (toLowerCase email)) #
             FetchAvatar (trim (toLowerCase email)) #
             fst (getBusinessAvatar (settings st) net (trim (toLowerCase email)))"
proof -
  let ?k = "trim (toLowerCase email)"
  obtain evs res where g: "getBusinessAvatar (settings st) net ?k = (evs, res)"
    by (cases "getBusinessAvatar (settings st) net ?k")
  show ?thesis
    by (simp add: getAvatar_start [OF assms(1,3,4) g] g) (simp add: getAvatar_def)
qed

text \<open>The hypotheses of C2 hold for \<open>not-an-email\<close> in the initial state.\<close>

theorem invalid_address_handling_witness:
  "''not-an-email'' \<noteq> [] \<and>
   extractDomain (trim (toLowerCase ''not-an-email'')) = None \<and>
   fresh_entry 0 (trim (toLowerCase ''not-an-email'')) initial_state = None \<and>
   map_of (pendingRequests initial_state) (trim (toLowerCase ''not-an-email'')) = None \<and>
   getAvatar offline 0 (Str []) initial_state = (ReturnedNull, initial_state) \<and>
   trace (snd (getAvatar offline 0 (Str ''not-an-email'') initial_state)) =
     [CacheGet ''not-an-email'', FetchAvatar ''not-an-email'',
      Head ''https://www.google.com/s2/favicons?domain=null&sz=32'']"
proof -
  have h1: "''not-an-email'' \<noteq> []" by simp
  have h2: "extractDomain (trim (toLowerCase ''not-an-email'')) = None"
    by (simp add: norm_nae dom_nae)
  have h3: "fresh_entry 0 (trim (toLowerCase ''not-an-email'')) initial_state = None"
    by (simp add: fresh_entry_def initial_state_def)
  have h4: "map_of (pendingRequests initial_state) (trim (toLowerCase ''not-an-email'')) = None"
    by (simp add: initial_state_def)
  have s: "settings initial_state = default_settings" "trace initial_state = []"
    by (simp_all add: initial_state_def)
  from invalid_address_handling [OF h1 h2 h3 h4, of offline] h1 h2 h3 h4
  show ?thesis
    by (simp add: norm_nae s gba_nae)
qed

section \<open>Disabled sources\<close>

text \<open>
  C3, the claim as stated fails: after an update with \<open>enableFavicon\<close>, \<open>enableLogoAPI\<close> and
  \<open>enableFallbackService\<close> all false, the third stage still runs, because the code reads
  \<open>enableGoogleFavicon\<close>; with a network that answers every request with an image the
  resolution sends a request and returns the Google favicon.
\<close>

theorem fallback_service_key_ignored:
  "getBusinessAvatar
     (settings (snd (updateSettings
        [''enableFavicon'' \<mapsto> JBool False, ''enableLogoAPI'' \<mapsto> JBool False,
         ''enableFallbackService'' \<mapsto> JBool False] True initial_state)))
     all_images ''a@x.com'' =
   ([Head ''https://www.google.com/s2/favicons?domain=x.com&sz=32''],
    Inr \<lparr>av_url = ''https://www.google.com/s2/favicons?domain=x.com&sz=32'',
         av_type = google_favicon, av_domain = Some ''x.com'', av_size = Some (JNum 32),
         av_email = ''a@x.com'', av_initials = None\<rparr>)"
  by (simp add: updateSettings_def initial_state_def default_settings_def getBusinessAvatar_def
      dom_x try_google_def validateImageUrl_def all_images_def int_to_string_32 Let_def)

text \<open>
  C3, with the option names of the code: after an update that sets \<open>enableFavicon\<close>,
  \<open>enableLogoAPI\<close> and \<open>enableGoogleFavicon\<close> to false, a resolution makes no request,
  whatever the network and the address, and its result is that of
  \<open>createBusinessInitials\<close>.
\<close>

theorem disabled_sources_go_to_initials:
  assumes "newSettings ''enableFavicon'' = Some (JBool False)"
    and "newSettings ''enableLogoAPI'' = Some (JBool False)"
    and "newSettings ''enableGoogleFavicon'' = Some (JBool False)"
  shows "getBusinessAvatar (settings (snd (updateSettings newSettings storage_ok st))) net email =
           ([], createBusinessInitials (settings (snd (updateSettings newSettings storage_ok st)))
                  email (extractDomain email))"
proof -
  let ?s = "settings (snd (updateSettings newSettings storage_ok st))"
  have s: "?s = settings st ++ newSettings"
    by (simp add: updateSettings_def Let_def)
  have "?s ''enableFavicon'' = Some (JBool False)" "?s ''enableLogoAPI'' = Some (JBool False)"
    "?s ''enableGoogleFavicon'' = Some (JBool False)"
    unfolding s using assms by (simp_all add: map_add_def)
  then show ?thesis
    by (simp add: getBusinessAvatar_def)
qed

text \<open>The hypotheses of C3 hold for an update with exactly these three options.\<close>

theorem disabled_sources_go_to_initials_witness:
  "[''enableFavicon'' \<mapsto> JBool False, ''enableLogoAPI'' \<mapsto> JBool False,
    ''enableGoogleFavicon'' \<mapsto> JBool False] ''enableFavicon'' = Some (JBool False) \<and>
   [''enableFavicon'' \<mapsto> JBool False, ''enableLogoAPI'' \<mapsto> JBool False,
    ''enableGoogleFavicon'' \<mapsto> JBool False] ''enableLogoAPI'' = Some (JBool False) \<and>
   [''enableFavicon'' \<mapsto> JBool False, ''enableLogoAPI'' \<mapsto> JBool False,
    ''enableGoogleFavicon'' \<mapsto> JBool False] ''enableGoogleFavicon'' = Some (JBool False) \<and>
   fst (getBusinessAvatar
     (settings (snd (updateSettings
        [''enableFavicon'' \<mapsto> JBool False, ''enableLogoAPI'' \<mapsto> JBool False,
         ''enableGoogleFavicon'' \<mapsto> JBool False] True initial_state)))
     all_images ''a@x.com'') = []"
proof -
  let ?n = "[''enableFavicon'' \<mapsto> JBool False, ''enableLogoAPI'' \<mapsto> JBool False,
             ''enableGoogleFavicon'' \<mapsto> JBool False]"
  have h1: "?n ''enableFavicon'' = Some (JBool False)" by simp
  have h2: "?n ''enableLogoAPI'' = Some (JBool False)" by simp
  have h3: "?n ''enableGoogleFavicon'' = Some (JBool False)" by simp
  from disabled_sources_go_to_initials [OF h1 h2 h3, of True initial_state all_images "''a@x.com''"]
  have "fst (getBusinessAvatar (settings (snd (updateSettings ?n True initial_state)))
          all_images ''a@x.com'') = []"
    by (simp only: fst_conv)
  with h1 h2 h3 show ?thesis by (intro conjI)
qed

section \<open>Deduplication of resolutions in flight\<close>

lemma dedup_inv_initial: "dedup_inv initial_state"
  by (simp add: dedup_inv_def initial_state_def)

lemma dedup_inv_getAvatar:
  assumes "dedup_inv st"
  shows "dedup_inv (snd (getAvatar net now a st))"
proof (cases a)
  case (Str email)
  show ?thesis
  proof (cases email)
    case Nil
    with Str assms show ?thesis by (simp add: getAvatar_def)
  next
    case (Cons c cs)
    let ?k = "trim (toLowerCase (c # cs))"
    show ?thesis
    proof (cases "fresh_entry now ?k st")
      case (Some d)
      with Str Cons assms show ?thesis
        by (simp add: getAvatar_def dedup_inv_def Let_def)
    next
      case None
      note fresh = this
      show ?thesis
      proof (cases "map_of (pendingRequests st) ?k")
        case (Some p)
        with Str Cons fresh assms show ?thesis
          by (simp add: getAvatar_def dedup_inv_def Let_def)
      next
        case None
        from None assms have absent: "?k \<notin> fst ` set (awaiting st)"
          by (simp add: dedup_inv_def map_of_eq_None_iff)
        from assms have "list_all (\<lambda>(email, p). pid p < promises st) (awaiting st)"
          by (simp add: dedup_inv_def)
        then have lt: "\<And>e p. (e, p) \<in> set (awaiting st) \<Longrightarrow> pid p < promises st"
          by (auto simp: list_all_iff)
        then have newpid: "promises st \<notin> (\<lambda>(email, p). pid p) ` set (awaiting st)"
          by force
        from lt have "list_all (\<lambda>(email, p). pid p < Suc (promises st)) (awaiting st)"
          by (fastforce simp: list_all_iff)
        with Str Cons fresh None assms absent newpid show ?thesis
          by (simp add: getAvatar_def dedup_inv_def Let_def update_absent split: prod.splits)
      qed
    qed
  qed
qed (use assms in \<open>simp_all add: getAvatar_def\<close>)

lemma delete_is_filter_pid:
  assumes "distinct (map fst aw)" and "distinct (map (\<lambda>(email, p). pid p) aw)"
    and "find (\<lambda>(email, p). pid p = i) aw = Some (k, q)"
  shows "AList.delete k aw = filter (\<lambda>(email, p). pid p \<noteq> i) aw"
proof -
  from assms(3) have mem: "(k, q) \<in> set aw" and pq: "pid q = i"
    by (auto dest: find_SomeD)
  have "\<And>e p. (e, p) \<in> set aw \<Longrightarrow> (e \<noteq> k) = (pid p \<noteq> i)"
  proof -
    fix e p assume ep: "(e, p) \<in> set aw"
    show "(e \<noteq> k) = (pid p \<noteq> i)"
    proof
      assume "e \<noteq> k"
      show "pid p \<noteq> i"
      proof
        assume "pid p = i"
        with pq have "(\<lambda>(email, p). pid p) (e, p) = (\<lambda>(email, p). pid p) (k, q)" by simp
        with assms(2) ep mem have "(e, p) = (k, q)"
          by (metis distinct_map inj_onD)
        with \<open>e \<noteq> k\<close> show False by simp
      qed
    next
      assume ne: "pid p \<noteq> i"
      show "e \<noteq> k"
      proof
        assume "e = k"
        with ep mem assms(1) have "p = q"
          by (auto dest: eq_key_imp_eq_value)
        with pq ne show False by simp
      qed
    qed
  qed
  then show ?thesis
    by (auto simp: AList.delete_eq intro!: filter_cong)
qed

lemma dedup_inv_settle:
  assumes "dedup_inv st"
  shows "dedup_inv (step net st (Settle i now))"
proof (cases "find (\<lambda>(email, p). pid p = i) (awaiting st)")
  case None
  with assms show ?thesis by simp
next
  case (Some kp)
  obtain k q where kp: "kp = (k, q)" by (cases kp)
  from assms have d1: "distinct (map fst (awaiting st))"
    and d2: "distinct (map (\<lambda>(email, p). pid p) (awaiting st))"
    and eq: "pendingRequests st = awaiting st"
    and lt: "list_all (\<lambda>(email, p). pid p < promises st) (awaiting st)"
    by (simp_all add: dedup_inv_def)
  from Some kp have f: "find (\<lambda>(email, p). pid p = i) (awaiting st) = Some (k, q)" by simp
  have del: "AList.delete k (awaiting st) = filter (\<lambda>(email, p). pid p \<noteq> i) (awaiting st)"
    by (rule delete_is_filter_pid [OF d1 d2 f])
  have d1': "distinct (map fst (filter (\<lambda>(email, p). pid p \<noteq> i) (awaiting st)))"
    using d1 by (simp add: distinct_map_filter)
  have d2': "distinct (map (\<lambda>(email, p). pid p) (filter (\<lambda>(email, p). pid p \<noteq> i) (awaiting st)))"
    using d2 by (simp add: distinct_map_filter)
  have lt': "list_all (\<lambda>(email, p). pid p < promises st) (filter (\<lambda>(email, p). pid p \<noteq> i) (awaiting st))"
    using lt by (auto simp: list_all_iff)
  show ?thesis
    using f eq del d1' d2' lt'
    by (cases "settles q")
       (simp_all add: getAvatar_resume_def dedup_inv_def cacheAvatar_frame Let_def)
qed

lemma dedup_inv_step: "dedup_inv st \<Longrightarrow> dedup_inv (step net st act)"
proof (cases act)
  case (GetAvatar a now)
  assume "dedup_inv st"
  with GetAvatar show ?thesis by (simp add: dedup_inv_getAvatar)
next
  case (Settle i now)
  assume "dedup_inv st"
  with Settle show ?thesis by (simp only: dedup_inv_settle)
next
  case (UpdateSettings n ok)
  assume "dedup_inv st"
  with UpdateSettings show ?thesis by (simp add: dedup_inv_def updateSettings_def Let_def)
next
  case (CleanCache now)
  assume "dedup_inv st"
  with CleanCache show ?thesis by (simp add: dedup_inv_def cleanCache_def)
next
  case ClearCache
  assume "dedup_inv st"
  with ClearCache show ?thesis by (simp add: dedup_inv_def clearCache_def)
qed

lemma dedup_inv_run: "dedup_inv st \<Longrightarrow> dedup_inv (run net acts st)"
  unfolding run_def by (induction acts arbitrary: st) (simp_all add: dedup_inv_step)

lemma resolutions_append: "resolutions (xs @ ys) = resolutions xs + resolutions ys"
  by (induction xs rule: resolutions.induct) simp_all

lemma resolutions_validateImageUrl: "resolutions (fst (validateImageUrl net url)) = 0"
  by (simp add: validateImageUrl_def)

lemma resolutions_first_valid: "resolutions (fst (first_valid net urls)) = 0"
  by (induction urls)
     (auto simp: resolutions_append validateImageUrl_def split: prod.splits)

lemma resolutions_getFaviconUrl: "resolutions (fst (getFaviconUrl net domain)) = 0"
proof -
  have "\<And>d l r. first_valid net (faviconUrls d) = (l, r) \<Longrightarrow> resolutions l = 0"
    using resolutions_first_valid by (metis fst_conv)
  then show ?thesis
    by (auto simp: getFaviconUrl_def split: option.splits list.splits prod.splits)
qed

lemma resolutions_getCompanyLogo: "resolutions (fst (getCompanyLogo net domain)) = 0"
  by (simp add: getCompanyLogo_def Let_def split: option.splits list.splits)

lemma resolutions_try_favicon: "resolutions (fst (try_favicon s net email domain)) = 0"
proof -
  obtain l r where g: "getFaviconUrl net domain = (l, r)" by (cases "getFaviconUrl net domain")
  with resolutions_getFaviconUrl [of net domain] have "resolutions l = 0" by simp
  with g show ?thesis
    by (cases r) (simp_all add: try_favicon_def validateImageUrl_def resolutions_append)
qed

lemma resolutions_try_logo: "resolutions (fst (try_logo s net email domain)) = 0"
proof -
  obtain l r where g: "getCompanyLogo net domain = (l, r)" by (cases "getCompanyLogo net domain")
  with resolutions_getCompanyLogo [of net domain] have "resolutions l = 0" by simp
  with g show ?thesis
    by (cases r) (simp_all add: try_logo_def validateImageUrl_def resolutions_append)
qed

lemma resolutions_try_google: "resolutions (fst (try_google s net email domain)) = 0"
  by (simp add: try_google_def validateImageUrl_def Let_def)

lemma resolutions_getBusinessAvatar: "resolutions (fst (getBusinessAvatar s net email)) = 0"
proof -
  let ?d = "extractDomain email"
  obtain l1 r1 where t1: "try_favicon s net email ?d = (l1, r1)" by (cases "try_favicon s net email ?d")
  obtain l2 r2 where t2: "try_logo s net email ?d = (l2, r2)" by (cases "try_logo s net email ?d")
  obtain l3 r3 where t3: "try_google s net email ?d = (l3, r3)" by (cases "try_google s net email ?d")
  from t1 resolutions_try_favicon [of s net email ?d] have z1: "resolutions l1 = 0" by simp
  from t2 resolutions_try_logo [of s net email ?d] have z2: "resolutions l2 = 0" by simp
  from t3 resolutions_try_google [of s net email ?d] have z3: "resolutions l3 = 0" by simp
  show ?thesis
    using t1 t2 t3 z1 z2 z3
    by (simp add: getBusinessAvatar_def Let_def resolutions_append split: option.splits)
qed

lemma resolutions_replicate_CacheGet: "resolutions (replicate n (CacheGet k)) = 0"
  by (induction n) simp_all

lemma getAvatar_StartedD:
  assumes "getAvatar net t (Str email) st = (Started p, st1)"
  shows "email \<noteq> []"
    and "fresh_entry t (trim (toLowerCase email)) st = None"
    and "map_of (pendingRequests st) (trim (toLowerCase email)) = None"
    and "pendingRequests st1 = AList.update (trim (toLowerCase email)) p (pendingRequests st)"
    and "cache st1 = cache st"
    and "settings st1 = settings st"
    and "resolutions (trace st1) = Suc (resolutions (trace st))"
    and "p = \<lparr>pid = promises st, settles = snd (getBusinessAvatar (settings st) net (trim (toLowerCase email)))\<rparr>"
proof -
  from assms show ne: "email \<noteq> []" by (auto simp: getAvatar_def)
  then obtain c cs where e: "email = c # cs" by (cases email) auto
  let ?k = "trim (toLowerCase email)"
  obtain evs res where g: "getBusinessAvatar (settings st) net ?k = (evs, res)"
    by (cases "getBusinessAvatar (settings st) net ?k")
  with resolutions_getBusinessAvatar [of "settings st" net ?k] have z: "resolutions evs = 0" by simp
  from assms e show f: "fresh_entry t ?k st = None"
    by (auto simp: getAvatar_def Let_def split: option.splits prod.splits)
  from assms e show m: "map_of (pendingRequests st) ?k = None"
    by (auto simp: getAvatar_def Let_def split: option.splits prod.splits)
  from assms e f m g z
  show "pendingRequests st1 = AList.update ?k p (pendingRequests st)"
    and "cache st1 = cache st" and "settings st1 = settings st"
    and "resolutions (trace st1) = Suc (resolutions (trace st))"
    and "p = \<lparr>pid = promises st, settles = snd (getBusinessAvatar (settings st) net ?k)\<rparr>"
    by (auto simp: getAvatar_def Let_def resolutions_append)
qed

lemma fresh_entry_later:
  "fresh_entry t k st = None \<Longrightarrow> t \<le> t' \<Longrightarrow> fresh_entry t' k st = None"
  by (auto simp: fresh_entry_def js_lt_def split: option.splits if_splits)

lemma fresh_entry_cong:
  "cache st' = cache st \<Longrightarrow> settings st' = settings st \<Longrightarrow>
   fresh_entry t k st' = fresh_entry t k st"
  by (simp add: fresh_entry_def split: option.splits)

lemma getAvatar_calls_join:
  assumes "email \<noteq> []"
    and "fresh_entry t (trim (toLowerCase email)) st = None"
    and "map_of (pendingRequests st) (trim (toLowerCase email)) = Some p"
    and "list_all (\<lambda>t'. t \<le> t') ts"
  shows "getAvatar_calls net (Str email) ts st =
           (replicate (length ts) (Joined p),
            st\<lparr>trace := trace st @ replicate (length ts) (CacheGet (trim (toLowerCase email)))\<rparr>)"
  using assms
proof (induction ts arbitrary: st)
  case Nil
  then show ?case by simp
next
  case (Cons t' ts)
  let ?k = "trim (toLowerCase email)"
  let ?st1 = "st\<lparr>trace := trace st @ [CacheGet ?k]\<rparr>"
  from Cons.prems have f': "fresh_entry t' ?k st = None"
    by (auto intro: fresh_entry_later)
  have one: "getAvatar net t' (Str email) st = (Joined p, ?st1)"
    by (rule getAvatar_join [OF Cons.prems(1) f' Cons.prems(3)])
  have f1: "fresh_entry t ?k ?st1 = None"
    using Cons.prems(2) fresh_entry_cong [of ?st1 st t ?k] by simp
  have m1: "map_of (pendingRequests ?st1) ?k = Some p"
    using Cons.prems(3) by simp
  from Cons.prems(4) have ts: "list_all (\<lambda>t'. t \<le> t') ts" by simp
  have rest: "getAvatar_calls net (Str email) ts ?st1 =
      (replicate (length ts) (Joined p),
       ?st1\<lparr>trace := trace ?st1 @ replicate (length ts) (CacheGet ?k)\<rparr>)"
    by (rule Cons.IH [OF Cons.prems(1) f1 m1 ts])
  show ?case
    by (simp add: one rest replicate_append_same [symmetric] del: replicate_append_same)
qed

text \<open>
  C4. In every state the event loop reaches from the initial state, no address has two
  resolutions in flight. When a call of \<open>getAvatar\<close> in such a state starts a resolution with
  promise \<open>p\<close>, and the address is asked for again at later times \<open>ts\<close> before \<open>p\<close> settles:
  exactly one call of \<open>fetchAvatar\<close> was made, every later call returns the same promise
  \<open>p\<close> (so all callers settle with its value), \<open>p\<close> is the one resolution in flight for the
  address, and when \<open>p\<close> settles the pending entry is removed and nothing is in flight
  for the address.
\<close>

theorem getAvatar_deduplicates:
  assumes first: "getAvatar net t (Str email) (run net acts initial_state) = (Started p, st1)"
    and later: "list_all (\<lambda>t'. t \<le> t') ts"
    and calls: "getAvatar_calls net (Str email) ts st1 = (rs, st2)"
  shows "distinct (map fst (awaiting (run net acts' initial_state))) \<and>
         resolutions (trace st2) = Suc (resolutions (trace (run net acts initial_state))) \<and>
         rs = replicate (length ts) (Joined p) \<and>
         filter (\<lambda>(k, q). k = trim (toLowerCase email)) (awaiting st2) =
           [(trim (toLowerCase email), p)] \<and>
         map_of (pendingRequests st2) (trim (toLowerCase email)) = Some p \<and>
         map_of (pendingRequests (step net st2 (Settle (pid p) now))) (trim (toLowerCase email)) =
           None \<and>
         filter (\<lambda>(k, q). k = trim (toLowerCase email))
           (awaiting (step net st2 (Settle (pid p) now))) = []"
proof -
  let ?st = "run net acts initial_state"
  let ?k = "trim (toLowerCase email)"
  have inv0: "dedup_inv ?st" by (simp add: dedup_inv_run dedup_inv_initial)
  have "dedup_inv (run net acts' initial_state)" by (simp add: dedup_inv_run dedup_inv_initial)
  then have c1: "distinct (map fst (awaiting (run net acts' initial_state)))"
    by (simp add: dedup_inv_def)
  note D = getAvatar_StartedD [OF first]
  from first have st1: "st1 = snd (getAvatar net t (Str email) ?st)" by simp
  have inv1: "dedup_inv st1" unfolding st1 by (rule dedup_inv_getAvatar [OF inv0])
  have f1: "fresh_entry t ?k st1 = None"
    using D(2) fresh_entry_cong [OF D(5) D(6), of t ?k] by simp
  have m1: "map_of (pendingRequests st1) ?k = Some p"
    by (simp add: D(4) update_conv')
  have cj: "getAvatar_calls net (Str email) ts st1 =
      (replicate (length ts) (Joined p),
       st1\<lparr>trace := trace st1 @ replicate (length ts) (CacheGet ?k)\<rparr>)"
    by (rule getAvatar_calls_join [OF D(1) f1 m1 later])
  with calls have rs: "rs = replicate (length ts) (Joined p)"
    and st2: "st2 = st1\<lparr>trace := trace st1 @ replicate (length ts) (CacheGet ?k)\<rparr>"
    by simp_all
  have c2: "resolutions (trace st2) = Suc (resolutions (trace ?st))"
    by (simp add: st2 resolutions_append resolutions_replicate_CacheGet D(7))
  from inv1 have inv2: "dedup_inv st2" by (simp add: st2 dedup_inv_def)
  from m1 have m2: "map_of (pendingRequests st2) ?k = Some p" by (simp add: st2)
  from inv2 have eq: "pendingRequests st2 = awaiting st2"
    and d1: "distinct (map fst (awaiting st2))"
    and d2: "distinct (map (\<lambda>(email, p). pid p) (awaiting st2))"
    by (simp_all add: dedup_inv_def)
  from m2 eq have mem: "(?k, p) \<in> set (awaiting st2)"
    by (auto dest: map_of_SomeD)
  have c4: "filter (\<lambda>(k, q). k = ?k) (awaiting st2) = [(?k, p)]"
    by (rule filter_key_unique [OF d1 mem])
  have fnd: "find (\<lambda>(email, q). pid q = pid p) (awaiting st2) = Some (?k, p)"
  proof -
    have "find (\<lambda>y. (\<lambda>(email, p). pid p) y = (\<lambda>(email, p). pid p) (?k, p)) (awaiting st2) =
        Some (?k, p)"
      by (rule find_unique [OF d2 mem])
    then show ?thesis by (simp add: case_prod_unfold)
  qed
  let ?st3 = "step net st2 (Settle (pid p) now)"
  have p3: "pendingRequests ?st3 = AList.delete ?k (pendingRequests st2)"
    using fnd by (cases "settles p") (simp_all add: getAvatar_resume_def cacheAvatar_frame Let_def)
  have c6: "map_of (pendingRequests ?st3) ?k = None"
    unfolding p3 by (simp add: delete_conv')
  have "dedup_inv ?st3" by (rule dedup_inv_settle [OF inv2])
  then have "awaiting ?st3 = pendingRequests ?st3" unfolding dedup_inv_def by (elim conjE) (rule sym)
  with c6 have "map_of (awaiting ?st3) ?k = None" by (simp only:)
  then have "?k \<notin> fst ` set (awaiting ?st3)"
    by (rule iffD1 [OF map_of_eq_None_iff])
  then have c7: "filter (\<lambda>(k, q). k = ?k) (awaiting ?st3) = []"
    by (rule filter_key_absent)
  from c1 c2 rs c4 m2 c6 c7 show ?thesis by blast
qed

text \<open>The hypotheses of C4 hold for a first call at time 1 and two more at times 2 and 3.\<close>

theorem getAvatar_deduplicates_witness:
  "fst first_call = Started \<lparr>pid = 0, settles = Inr (gmail_avatar ''a@gmail.com'')\<rparr> \<and>
   list_all (\<lambda>t'. 1 \<le> t') [2, 3 :: int] \<and>
   distinct (map fst (awaiting (snd later_calls))) \<and>
   resolutions (trace (snd later_calls)) = 1 \<and>
   fst later_calls =
     [Joined \<lparr>pid = 0, settles = Inr (gmail_avatar ''a@gmail.com'')\<rparr>,
      Joined \<lparr>pid = 0, settles = Inr (gmail_avatar ''a@gmail.com'')\<rparr>] \<and>
   map_of (pendingRequests (snd later_calls)) ''a@gmail.com'' =
     Some \<lparr>pid = 0, settles = Inr (gmail_avatar ''a@gmail.com'')\<rparr> \<and>
   map_of (pendingRequests (step all_images (snd later_calls) (Settle 0 4))) ''a@gmail.com'' =
     None"
proof -
  let ?p = "\<lparr>pid = 0, settles = Inr (gmail_avatar ''a@gmail.com'')\<rparr>"
  have h1: "getAvatar all_images 1 (Str ''a@gmail.com'') (run all_images [] initial_state) =
      (Started ?p, snd first_call)"
    using first_call_eval by (simp add: first_call_def)
  have h2: "list_all (\<lambda>t'. 1 \<le> t') [2, 3 :: int]" by simp
  have h3: "getAvatar_calls all_images (Str ''a@gmail.com'') [2, 3] (snd first_call) =
      (fst later_calls, snd later_calls)"
    by (simp add: later_calls_def)
  have l: "snd later_calls =
      run all_images [GetAvatar (Str ''a@gmail.com'') 1, GetAvatar (Str ''a@gmail.com'') 2,
        GetAvatar (Str ''a@gmail.com'') 3] initial_state"
    by (simp add: later_calls_def first_call_def run_def split: prod.splits)
  have f: "fst first_call = Started ?p" by (simp add: first_call_eval)
  have r0: "resolutions (trace (run all_images [] initial_state)) = 0"
    by (simp add: run_def initial_state_def)
  from getAvatar_deduplicates [OF h1 h2 h3,
      of "[GetAvatar (Str ''a@gmail.com'') 1, GetAvatar (Str ''a@gmail.com'') 2,
           GetAvatar (Str ''a@gmail.com'') 3]" 4] f h2
  show ?thesis
    by (simp add: norm_ag l [symmetric] r0)
qed

section \<open>Capacity and eviction\<close>

lemma update_length_le: "length (AList.update k v al) \<le> Suc (length al)"
  by (induction al) auto

text \<open>An insertion keeps a cache within a capacity of at least one.\<close>

lemma cacheAvatar_within_capacity:
  assumes "ToNumber (settings st ''maxCacheSize'') = Some m" and "1 \<le> m"
    and "int (length (cache st)) \<le> m"
  shows "int (length (cache (cacheAvatar email d now st))) \<le> m"
proof (cases "js_ge (int (length (cache st))) (settings st ''maxCacheSize'')")
  case True
  with assms have full: "int (length (cache st)) = m" by (simp add: js_ge_def)
  with assms(2) obtain k v rest where c: "cache st = (k, v) # rest" by (cases "cache st") auto
  have "length (AList.delete k (cache st)) \<le> length rest"
    by (simp add: c length_delete_le)
  with full c
  have "int (length (AList.update email \<lparr>data = d, timestamp = now\<rparr>
          (AList.delete k (cache st)))) \<le> m"
    using update_length_le [of email "\<lparr>data = d, timestamp = now\<rparr>" "AList.delete k (cache st)"]
    by simp
  with True c show ?thesis by (simp add: cacheAvatar_def)
next
  case False
  with assms have "int (length (cache st)) < m" by (simp add: js_ge_def)
  then have "int (length (AList.update email \<lparr>data = d, timestamp = now\<rparr> (cache st))) \<le> m"
    using update_length_le [of email "\<lparr>data = d, timestamp = now\<rparr>" "cache st"] by simp
  with False show ?thesis by (simp add: cacheAvatar_def)
qed

text \<open>
  C5. The claim: at capacity the entry evicted is the oldest unaccessed one. The code with
  \<open>maxCacheSize\<close> 2, after \<open>a@gmail.com\<close> and then \<open>b@gmail.com\<close> were cached: a read of
  \<open>a@gmail.com\<close> is a cache hit, and the insertion of \<open>c@gmail.com\<close> that follows evicts
  \<open>a@gmail.com\<close>, the entry just read, and keeps \<open>b@gmail.com\<close>, which was never read.
\<close>

theorem eviction_ignores_reads:
  "fst (getAvatar all_images 5 (Str ''a@gmail.com'') two_full) = Hit (gmail_avatar ''a@gmail.com'') \<and>
   map fst (cache (run all_images
      [GetAvatar (Str ''a@gmail.com'') 5, GetAvatar (Str ''c@gmail.com'') 6, Settle 2 7] two_full)) =
     [''b@gmail.com'', ''c@gmail.com'']"
  unfolding two_full_eval
  by (simp add: run_def getAvatar_def getAvatar_resume_def
      cacheAvatar_def fresh_entry_def js_lt_def js_ge_def
      norm_ag norm_cg gba_c two_cfg_simps Let_def)

section \<open>Time to live\<close>

text \<open>
  C6. An entry stored at time \<open>timestamp entry\<close> under a \<open>cacheExpiry\<close> of \<open>T\<close>: a call for its
  address at \<open>timestamp entry + T - 1\<close> returns the stored descriptor and only reads the
  cache; at \<open>timestamp entry + T + 1\<close> the entry is not fresh, and the call starts a new
  resolution, or joins the one already in flight for the address.
\<close>

theorem cache_ttl:
  assumes "email \<noteq> []"
    and "map_of (cache st) (trim (toLowerCase email)) = Some entry"
    and "settings st ''cacheExpiry'' = Some (JNum T)"
  shows "getAvatar net (timestamp entry + T - 1) (Str email) st =
           (Hit (data entry), st\<lparr>trace := trace st @ [CacheGet (trim (toLowerCase email))]\<rparr>) \<and>
         fresh_entry (timestamp entry + T + 1) (trim (toLowerCase email)) st = None \<and>
         (case map_of (pendingRequests st) (trim (toLowerCase email)) of
            Some p \<Rightarrow>
              fst (getAvatar net (timestamp entry + T + 1) (Str email) st) = Joined p
          | None \<Rightarrow>
              fst (getAvatar net (timestamp entry + T + 1) (Str email) st) =
                Started \<lparr>pid = promises st,
                         settles = snd (getBusinessAvatar (settings st) net
                                          (trim (toLowerCase email)))\<rparr> \<and>
              resolutions (trace (snd (getAvatar net (timestamp entry + T + 1) (Str email) st))) =
                Suc (resolutions (trace st)))"
proof -
  let ?k = "trim (toLowerCase email)"
  let ?t = "timestamp entry + T + 1"
  have hit: "fresh_entry (timestamp entry + T - 1) ?k st = Some (data entry)"
    using assms(2,3) by (simp add: fresh_entry_def js_lt_def)
  have miss: "fresh_entry ?t ?k st = None"
    using assms(2,3) by (simp add: fresh_entry_def js_lt_def)
  have c1: "getAvatar net (timestamp entry + T - 1) (Str email) st =
      (Hit (data entry), st\<lparr>trace := trace st @ [CacheGet ?k]\<rparr>)"
    by (rule getAvatar_hit [OF assms(1) hit])
  have c3: "(case map_of (pendingRequests st) ?k of
            Some p \<Rightarrow> fst (getAvatar net ?t (Str email) st) = Joined p
          | None \<Rightarrow>
              fst (getAvatar net ?t (Str email) st) =
                Started \<lparr>pid = promises st,
                         settles = snd (getBusinessAvatar (settings st) net ?k)\<rparr> \<and>
              resolutions (trace (snd (getAvatar net ?t (Str email) st))) =
                Suc (resolutions (trace st)))"
  proof (cases "map_of (pendingRequests st) ?k")
    case (Some p)
    then show ?thesis
      by (simp add: getAvatar_join [OF assms(1) miss Some])
  next
    case None
    obtain evs res where g: "getBusinessAvatar (settings st) net ?k = (evs, res)"
      by (cases "getBusinessAvatar (settings st) net ?k")
    with resolutions_getBusinessAvatar [of "settings st" net ?k] have z: "resolutions evs = 0"
      by simp
    show ?thesis
      using None z g
      by (simp add: getAvatar_start [OF assms(1) miss None g] resolutions_append)
  qed
  from c1 miss c3 show ?thesis by blast
qed

text \<open>The hypotheses of C6 hold for \<open>a@gmail.com\<close>, cached at time 2 in \<open>two_full\<close>.\<close>

theorem cache_ttl_witness:
  "''a@gmail.com'' \<noteq> [] \<and>
   map_of (cache two_full) (trim (toLowerCase ''a@gmail.com'')) =
     Some \<lparr>data = gmail_avatar ''a@gmail.com'', timestamp = 2\<rparr> \<and>
   settings two_full ''cacheExpiry'' = Some (JNum 86400000) \<and>
   getAvatar all_images 86400001 (Str ''a@gmail.com'') two_full =
     (Hit (gmail_avatar ''a@gmail.com''),
      two_full\<lparr>trace := trace two_full @ [CacheGet ''a@gmail.com'']\<rparr>) \<and>
   fst (getAvatar all_images 86400003 (Str ''a@gmail.com'') two_full) =
     Started \<lparr>pid = 2, settles = Inr (gmail_avatar ''a@gmail.com'')\<rparr>"
proof -
  have h1: "''a@gmail.com'' \<noteq> []" by simp
  have h2: "map_of (cache two_full) (trim (toLowerCase ''a@gmail.com'')) =
      Some \<lparr>data = gmail_avatar ''a@gmail.com'', timestamp = 2\<rparr>"
    by (simp add: norm_ag two_full_fields)
  have h3: "settings two_full ''cacheExpiry'' = Some (JNum 86400000)"
    by (simp add: two_full_fields two_cfg_simps)
  from cache_ttl [OF h1 h2 h3, of all_images] h1 h2 h3
  show ?thesis
    by (simp add: norm_ag two_full_fields gba_a two_cfg_simps)
qed

section \<open>Properties of the initials\<close>

lemma split_js_nonempty: "split_js c s \<noteq> []"
  by (induction s) (auto split: list.splits)

lemma split_js_subset: "p \<in> set (split_js c s) \<Longrightarrow> set p \<subseteq> set s"
proof (induction s arbitrary: p)
  case Nil
  then show ?case by simp
next
  case (Cons x xs)
  show ?case
  proof (cases "x = c")
    case True
    with Cons show ?thesis by auto
  next
    case False
    obtain q qs where q: "split_js c xs = q # qs"
      using split_js_nonempty [of c xs] by (cases "split_js c xs") auto
    with False Cons.prems have "p = x # q \<or> p \<in> set qs" by auto
    then show ?thesis
    proof
      assume "p = x # q"
      moreover from q Cons.IH [of q] have "set q \<subseteq> set xs" by simp
      ultimately show ?thesis by auto
    next
      assume "p \<in> set qs"
      with q Cons.IH [of p] show ?thesis by auto
    qed
  qed
qed

lemma letters_disjoint: "u \<in> set upper_letters \<Longrightarrow> u \<notin> set lower_letters"
  by (auto simp: upper_letters_def lower_letters_def)

lemma toUpperCase_char_cases:
  "(c \<in> set lower_letters \<and> toUpperCase_char c \<in> set upper_letters) \<or>
   (c \<notin> set lower_letters \<and> toUpperCase_char c = c)"
proof (cases "map_of (zip lower_letters upper_letters) c")
  case None
  have "length lower_letters = length upper_letters"
    by (simp add: lower_letters_def upper_letters_def)
  with None have "c \<notin> set lower_letters"
    by (simp add: map_of_zip_is_None)
  with None show ?thesis by (simp add: toUpperCase_char_def)
next
  case (Some u)
  then have "(c, u) \<in> set (zip lower_letters upper_letters)" by (rule map_of_SomeD)
  then have "c \<in> set lower_letters" "u \<in> set upper_letters"
    by (auto dest: set_zip_leftD set_zip_rightD)
  with Some show ?thesis by (simp add: toUpperCase_char_def)
qed

lemma toUpperCase_char_not_lower: "toUpperCase_char c \<notin> set lower_letters"
  using toUpperCase_char_cases [of c] letters_disjoint by auto

lemma toUpperCase_char_letter: "is_letter c \<Longrightarrow> toUpperCase_char c \<in> set upper_letters"
  using toUpperCase_char_cases [of c] by (auto simp: is_letter_def)

lemma ascii_subset: "ascii s \<Longrightarrow> set p \<subseteq> set s \<Longrightarrow> ascii p"
  by (auto simp: ascii_def list_all_iff)

lemma ascii_split_js: "ascii s \<Longrightarrow> list_all ascii (split_js c s)"
  using split_js_subset ascii_subset by (fastforce simp: list_all_iff)

lemma hd_split_js: "hd (split_js c s) = takeWhile (\<lambda>x. x \<noteq> c) s"
proof (induction s)
  case Nil
  show ?case by simp
next
  case (Cons x xs)
  obtain q qs where q: "split_js c xs = q # qs"
    using split_js_nonempty [of c xs] by (cases "split_js c xs") auto
  with Cons show ?case by simp
qed

lemma split_js_append: "c \<notin> set a \<Longrightarrow> split_js c (a @ c # b) = a # split_js c b"
  by (induction a) auto

lemma local_part_takeWhile: "local_part email = takeWhile (\<lambda>c. c \<noteq> CHR ''@'') email"
  by (simp add: local_part_def hd_split_js)

lemma ascii_local_part: "ascii email \<Longrightarrow> ascii (hd (split_js (CHR ''@'') email))"
  unfolding hd_split_js by (rule ascii_subset) (auto dest: set_takeWhileD)

text \<open>The first letters of the first two segments, for parts of ASCII characters.\<close>

lemma first_letters_length:
  assumes "list_all ascii ps"
  shows "length (concat (map (\<lambda>part. toUpperCase (charAt0 part)) (take 2 ps))) \<le> 2"
proof -
  have "\<And>p. length (toUpperCase (charAt0 p)) \<le> 1"
    by (simp add: toUpperCase_def charAt0_def)
  then have one: "\<And>p. length (toUpperCase (take (Suc 0) p)) \<le> Suc 0"
    by (simp add: charAt0_def)
  show ?thesis
  proof (cases ps)
    case Nil
    then show ?thesis by simp
  next
    case (Cons a as)
    note outer = this
    show ?thesis
    proof (cases as)
      case Nil
      with outer one [of a] show ?thesis by (simp add: charAt0_def)
    next
      case (Cons b bs)
      with outer one [of a] one [of b] show ?thesis by (simp add: charAt0_def)
    qed
  qed
qed

lemma first_letters_subset:
  assumes "list_all ascii ps" and "\<And>p. p \<in> set ps \<Longrightarrow> set p \<subseteq> A"
  shows "set (concat (map (\<lambda>part. toUpperCase (charAt0 part)) (take 2 ps))) \<subseteq> toUpperCase_char ` A"
proof
  fix x assume "x \<in> set (concat (map (\<lambda>part. toUpperCase (charAt0 part)) (take 2 ps)))"
  then obtain p where p: "p \<in> set (take 2 ps)" and x: "x \<in> set (toUpperCase (charAt0 p))"
    by auto
  from p have "p \<in> set ps" by (rule in_set_takeD)
  with assms(2) have "set p \<subseteq> A" .
  moreover from x obtain c where "c \<in> set (take 1 p)" "x = toUpperCase_char c"
    by (auto simp: toUpperCase_def charAt0_def)
  moreover then have "c \<in> set p" by (auto dest: in_set_takeD)
  ultimately show "x \<in> toUpperCase_char ` A" by auto
qed

lemma first_letters_segments:
  assumes "lp = a @ sep # b" and "sep \<notin> set a"
  shows "concat (map (\<lambda>part. toUpperCase (charAt0 part)) (take 2 (split_js sep lp))) =
         toUpperCase (take 1 a) @ toUpperCase (take 1 (takeWhile (\<lambda>c. c \<noteq> sep) b))"
proof -
  obtain q qs where q: "split_js sep b = q # qs"
    using split_js_nonempty [of sep b] by (cases "split_js sep b") auto
  with hd_split_js [of sep b] have hq: "q = takeWhile (\<lambda>c. c \<noteq> sep) b" by simp
  from assms have "split_js sep lp = a # q # qs"
    by (simp add: split_js_append q)
  then show ?thesis by (simp add: charAt0_def hq)
qed

lemma initials_length:
  assumes "ascii email"
  shows "length (generateBusinessInitials email) \<le> 2"
proof -
  let ?lp = "hd (split_js (CHR ''@'') email)"
  from assms have al: "ascii ?lp" by (rule ascii_local_part)
  have dot: "length (concat (map (\<lambda>part. toUpperCase (charAt0 part))
      (take 2 (split_js (CHR ''.'') ?lp)))) \<le> 2"
    by (rule first_letters_length) (rule ascii_split_js [OF al])
  have hyp: "length (concat (map (\<lambda>part. toUpperCase (charAt0 part))
      (take 2 (split_js (CHR ''-'') ?lp)))) \<le> 2"
    by (rule first_letters_length) (rule ascii_split_js [OF al])
  have two: "length (toUpperCase (take 2 ?lp)) \<le> 2"
    by (simp add: toUpperCase_def)
  have one: "\<not> length ?lp \<ge> 2 \<Longrightarrow>
      length (concat (replicate 2 (toUpperCase (charAt0 ?lp)))) \<le> 2"
    by (simp add: toUpperCase_def charAt0_def numeral_2_eq_2)
  show ?thesis
    unfolding generateBusinessInitials_def Let_def
    using dot hyp two one by (simp only: split: if_splits) blast
qed

lemma initials_subset:
  assumes "ascii email"
  shows "set (generateBusinessInitials email) \<subseteq> toUpperCase_char ` set (local_part email)"
proof -
  let ?lp = "hd (split_js (CHR ''@'') email)"
  from assms have al: "ascii ?lp" by (rule ascii_local_part)
  have dot: "set (concat (map (\<lambda>part. toUpperCase (charAt0 part)) (take 2 (split_js (CHR ''.'') ?lp))))
      \<subseteq> toUpperCase_char ` set ?lp"
    by (rule first_letters_subset [OF ascii_split_js [OF al]]) (rule split_js_subset)
  have hyp: "set (concat (map (\<lambda>part. toUpperCase (charAt0 part)) (take 2 (split_js (CHR ''-'') ?lp))))
      \<subseteq> toUpperCase_char ` set ?lp"
    by (rule first_letters_subset [OF ascii_split_js [OF al]]) (rule split_js_subset)
  have two: "set (toUpperCase (take 2 ?lp)) \<subseteq> toUpperCase_char ` set ?lp"
    by (auto simp: toUpperCase_def dest: in_set_takeD)
  have one: "set (concat (replicate 2 (toUpperCase (charAt0 ?lp)))) \<subseteq> toUpperCase_char ` set ?lp"
    by (auto simp: toUpperCase_def charAt0_def numeral_2_eq_2 dest: in_set_takeD)
  show ?thesis
    unfolding generateBusinessInitials_def local_part_def Let_def
    using dot hyp two one by (simp only: split: if_splits) blast
qed

text \<open>The rule of each branch, on the local part split at its first separator.\<close>

lemma initials_dot:
  assumes "ascii email"
    and "local_part email = a @ CHR ''.'' # b" and "CHR ''.'' \<notin> set a"
  shows "generateBusinessInitials email =
         toUpperCase (take 1 a) @ toUpperCase (take 1 (takeWhile (\<lambda>c. c \<noteq> CHR ''.'') b))"
proof -
  let ?lp = "hd (split_js (CHR ''@'') email)"
  from assms(2) have lp: "?lp = a @ CHR ''.'' # b" by (simp add: local_part_def)
  then have "CHR ''.'' \<in> set ?lp" by simp
  then show ?thesis
    by (simp add: generateBusinessInitials_def Let_def
        first_letters_segments [OF lp assms(3)])
qed

lemma initials_hyphen:
  assumes "ascii email"
    and "CHR ''.'' \<notin> set (local_part email)"
    and "local_part email = a @ CHR ''-'' # b" and "CHR ''-'' \<notin> set a"
  shows "generateBusinessInitials email =
         toUpperCase (take 1 a) @ toUpperCase (take 1 (takeWhile (\<lambda>c. c \<noteq> CHR ''-'') b))"
proof -
  let ?lp = "hd (split_js (CHR ''@'') email)"
  from assms(3) have lp: "?lp = a @ CHR ''-'' # b" by (simp add: local_part_def)
  then have "CHR ''-'' \<in> set ?lp" by simp
  moreover from assms(2) have "CHR ''.'' \<notin> set ?lp" by (simp add: local_part_def)
  ultimately show ?thesis
    by (simp add: generateBusinessInitials_def Let_def
        first_letters_segments [OF lp assms(4)])
qed

lemma initials_token:
  assumes "ascii email"
    and "CHR ''.'' \<notin> set (local_part email)" and "CHR ''-'' \<notin> set (local_part email)"
  shows "2 \<le> length (local_part email) \<Longrightarrow>
           generateBusinessInitials email = toUpperCase (take 2 (local_part email))"
    and "local_part email = [c] \<Longrightarrow>
           generateBusinessInitials email = [toUpperCase_char c, toUpperCase_char c]"
    and "local_part email = [] \<Longrightarrow> generateBusinessInitials email = []"
  using assms(2,3)
  by (simp_all add: generateBusinessInitials_def local_part_def Let_def toUpperCase_def
      charAt0_def numeral_2_eq_2)

lemmas initials_eval =
  generateBusinessInitials_def toUpperCase_def charAt0_def toUpperCase_char_def
  lower_letters_def upper_letters_def

lemma initials_examples:
  "generateBusinessInitials ''john.doe@x.com'' = ''JD''"
  "generateBusinessInitials ''jan-kowalski@x.com'' = ''JK''"
  "generateBusinessInitials ''al@x.com'' = ''AL''"
  "generateBusinessInitials ''a@x.com'' = ''AA''"
  by (simp_all add: initials_eval numeral_2_eq_2)

lemma initials_letters:
  assumes "local_part email \<noteq> []" and "list_all is_letter (local_part email)"
  shows "length (generateBusinessInitials email) = 2 \<and>
         uppercase_initials (generateBusinessInitials email)"
proof -
  let ?lp = "hd (split_js (CHR ''@'') email)"
  from assms have ne: "?lp \<noteq> []" and all: "\<And>c. c \<in> set ?lp \<Longrightarrow> is_letter c"
    by (simp_all add: local_part_def list_all_iff)
  have nodot: "CHR ''.'' \<notin> set ?lp"
  proof
    assume "CHR ''.'' \<in> set ?lp"
    then have "is_letter (CHR ''.'')" by (rule all)
    then show False by (simp add: is_letter_def lower_letters_def upper_letters_def)
  qed
  have nohyp: "CHR ''-'' \<notin> set ?lp"
  proof
    assume "CHR ''-'' \<in> set ?lp"
    then have "is_letter (CHR ''-'')" by (rule all)
    then show False by (simp add: is_letter_def lower_letters_def upper_letters_def)
  qed
  have up: "\<And>c. c \<in> set ?lp \<Longrightarrow> toUpperCase_char c \<in> set upper_letters"
    by (rule toUpperCase_char_letter) (rule all)
  show ?thesis
  proof (cases "length ?lp \<ge> 2")
    case True
    then have r: "generateBusinessInitials email = toUpperCase (take 2 ?lp)"
      using nodot nohyp by (simp add: generateBusinessInitials_def Let_def)
    from True have "length (toUpperCase (take 2 ?lp)) = 2" by (simp add: toUpperCase_def)
    moreover have "list_all (\<lambda>c. c \<in> set upper_letters) (toUpperCase (take 2 ?lp))"
      using up by (auto simp: toUpperCase_def list_all_iff dest: in_set_takeD)
    ultimately show ?thesis by (simp add: r uppercase_initials_def)
  next
    case False
    with ne obtain c where c: "?lp = [c]"
      by (cases ?lp) (auto simp: not_le less_Suc_eq)
    with False have r: "generateBusinessInitials email = [toUpperCase_char c, toUpperCase_char c]"
      using nodot nohyp
      by (simp add: generateBusinessInitials_def Let_def toUpperCase_def charAt0_def numeral_2_eq_2)
    from c up [of c] have "toUpperCase_char c \<in> set upper_letters" by simp
    then show ?thesis by (simp add: r uppercase_initials_def)
  qed
qed

text \<open>
  C7, the claim as stated fails: the initials of \<open>42@x.com\<close> are \<open>42\<close>, no letters, and those
  of \<open>..@x.com\<close> are empty.
\<close>

theorem initials_not_always_letters:
  "generateBusinessInitials ''42@x.com'' = ''42'' \<and>
   \<not> uppercase_initials (generateBusinessInitials ''42@x.com'') \<and>
   generateBusinessInitials ''..@x.com'' = [] \<and>
   \<not> uppercase_initials (generateBusinessInitials ''..@x.com'')"
  by (simp add: initials_eval uppercase_initials_def)

text \<open>
  C7, as the code has it, for ASCII addresses. The local part is the address up to its
  first \<open>@\<close>. If it has a dot, the initials are the upper-cased first character of the
  segment before the first dot and of the segment between the first and the second dot;
  otherwise, if it has a hyphen, the same with hyphens; otherwise its first two characters
  upper-cased when it has two or more, its one character upper-cased twice, and nothing
  when it is empty: a segment that is empty gives no character, and a digit or symbol
  stays as it is. So the four examples give \<open>JD\<close>, \<open>JK\<close>, \<open>AL\<close> and \<open>AA\<close>; the result has at
  most two characters, each the upper-casing of a character of the local part, none a
  lower-case letter; and for a non-empty local part of letters only it is exactly two
  uppercase letters.
\<close>

theorem generateBusinessInitials_shape:
  assumes "ascii email"
  shows "generateBusinessInitials ''john.doe@x.com'' = ''JD'' \<and>
         generateBusinessInitials ''jan-kowalski@x.com'' = ''JK'' \<and>
         generateBusinessInitials ''al@x.com'' = ''AL'' \<and>
         generateBusinessInitials ''a@x.com'' = ''AA'' \<and>
         length (generateBusinessInitials email) \<le> 2 \<and>
         set (generateBusinessInitials email) \<subseteq> toUpperCase_char ` set (local_part email) \<and>
         list_all (\<lambda>c. c \<notin> set lower_letters) (generateBusinessInitials email) \<and>
         (local_part email \<noteq> [] \<and> list_all is_letter (local_part email) \<longrightarrow>
            length (generateBusinessInitials email) = 2 \<and>
            uppercase_initials (generateBusinessInitials email)) \<and>
         local_part email = takeWhile (\<lambda>c. c \<noteq> CHR ''@'') email \<and>
         (local_part email = a @ CHR ''.'' # b \<and> CHR ''.'' \<notin> set a \<longrightarrow>
            generateBusinessInitials email =
              toUpperCase (take 1 a) @
              toUpperCase (take 1 (takeWhile (\<lambda>c. c \<noteq> CHR ''.'') b))) \<and>
         (CHR ''.'' \<notin> set (local_part email) \<and>
          local_part email = a @ CHR ''-'' # b \<and> CHR ''-'' \<notin> set a \<longrightarrow>
            generateBusinessInitials email =
              toUpperCase (take 1 a) @
              toUpperCase (take 1 (takeWhile (\<lambda>c. c \<noteq> CHR ''-'') b))) \<and>
         (CHR ''.'' \<notin> set (local_part email) \<and> CHR ''-'' \<notin> set (local_part email) \<and>
          2 \<le> length (local_part email) \<longrightarrow>
            generateBusinessInitials email = toUpperCase (take 2 (local_part email))) \<and>
         (local_part email = [c] \<and> c \<noteq> CHR ''.'' \<and> c \<noteq> CHR ''-'' \<longrightarrow>
            generateBusinessInitials email = [toUpperCase_char c, toUpperCase_char c]) \<and>
         (local_part email = [] \<longrightarrow> generateBusinessInitials email = [])"
proof -
  have low: "list_all (\<lambda>c. c \<notin> set lower_letters) (generateBusinessInitials email)"
    using initials_subset [OF assms] toUpperCase_char_not_lower
    by (auto simp: list_all_iff)
  have old: "generateBusinessInitials ''john.doe@x.com'' = ''JD'' \<and>
         generateBusinessInitials ''jan-kowalski@x.com'' = ''JK'' \<and>
         generateBusinessInitials ''al@x.com'' = ''AL'' \<and>
         generateBusinessInitials ''a@x.com'' = ''AA'' \<and>
         length (generateBusinessInitials email) \<le> 2 \<and>
         set (generateBusinessInitials email) \<subseteq> toUpperCase_char ` set (local_part email) \<and>
         list_all (\<lambda>c. c \<notin> set lower_letters) (generateBusinessInitials email) \<and>
         (local_part email \<noteq> [] \<and> list_all is_letter (local_part email) \<longrightarrow>
            length (generateBusinessInitials email) = 2 \<and>
            uppercase_initials (generateBusinessInitials email))"
    using initials_examples initials_length [OF assms] initials_subset [OF assms] low
      initials_letters [of email]
    by blast
  have r0: "local_part email = takeWhile (\<lambda>c. c \<noteq> CHR ''@'') email"
    by (rule local_part_takeWhile)
  have r1: "local_part email = a @ CHR ''.'' # b \<and> CHR ''.'' \<notin> set a \<longrightarrow>
      generateBusinessInitials email =
        toUpperCase (take 1 a) @ toUpperCase (take 1 (takeWhile (\<lambda>c. c \<noteq> CHR ''.'') b))"
    using initials_dot [OF assms, of a b] by blast
  have r2: "CHR ''.'' \<notin> set (local_part email) \<and>
      local_part email = a @ CHR ''-'' # b \<and> CHR ''-'' \<notin> set a \<longrightarrow>
      generateBusinessInitials email =
        toUpperCase (take 1 a) @ toUpperCase (take 1 (takeWhile (\<lambda>c. c \<noteq> CHR ''-'') b))"
    using initials_hyphen [OF assms, of a b] by blast
  have r3: "CHR ''.'' \<notin> set (local_part email) \<and> CHR ''-'' \<notin> set (local_part email) \<and>
      2 \<le> length (local_part email) \<longrightarrow>
      generateBusinessInitials email = toUpperCase (take 2 (local_part email))"
    using initials_token(1) [OF assms] by blast
  have r4: "local_part email = [c] \<and> c \<noteq> CHR ''.'' \<and> c \<noteq> CHR ''-'' \<longrightarrow>
      generateBusinessInitials email = [toUpperCase_char c, toUpperCase_char c]"
    using initials_token(2) [OF assms, of c] by auto
  have r5: "local_part email = [] \<longrightarrow> generateBusinessInitials email = []"
    using initials_token(3) [OF assms] by auto
  from old r0 r1 r2 r3 r4 r5 show ?thesis by blast
qed

text \<open>The hypotheses of C7 hold for \<open>j.doe@x.com\<close>, \<open>al@x.com\<close>, \<open>x.y.z@q\<close> (dot rule, first
  two of three segments), \<open>jan-kowalski@x.com\<close> (hyphen rule) and \<open>alice@x.com\<close> (first two
  characters).\<close>

theorem generateBusinessInitials_shape_witness:
  "ascii ''j.doe@x.com'' \<and>
   generateBusinessInitials ''j.doe@x.com'' = ''JD'' \<and>
   length (generateBusinessInitials ''j.doe@x.com'') \<le> 2 \<and>
   list_all (\<lambda>c. c \<notin> set lower_letters) (generateBusinessInitials ''j.doe@x.com'') \<and>
   local_part ''al@x.com'' \<noteq> [] \<and> list_all is_letter (local_part ''al@x.com'') \<and>
   uppercase_initials (generateBusinessInitials ''al@x.com'') \<and>
   ascii ''x.y.z@q'' \<and> local_part ''x.y.z@q'' = ''x'' @ CHR ''.'' # ''y.z'' \<and>
   CHR ''.'' \<notin> set ''x'' \<and> generateBusinessInitials ''x.y.z@q'' = ''XY'' \<and>
   ascii ''jan-kowalski@x.com'' \<and> CHR ''.'' \<notin> set (local_part ''jan-kowalski@x.com'') \<and>
   local_part ''jan-kowalski@x.com'' = ''jan'' @ CHR ''-'' # ''kowalski'' \<and>
   CHR ''-'' \<notin> set ''jan'' \<and> generateBusinessInitials ''jan-kowalski@x.com'' = ''JK'' \<and>
   ascii ''alice@x.com'' \<and> CHR ''.'' \<notin> set (local_part ''alice@x.com'') \<and>
   CHR ''-'' \<notin> set (local_part ''alice@x.com'') \<and> 2 \<le> length (local_part ''alice@x.com'') \<and>
   generateBusinessInitials ''alice@x.com'' = ''AL''"
proof -
  have h: "ascii ''j.doe@x.com''" by (simp add: ascii_def)
  have h': "ascii ''al@x.com''" by (simp add: ascii_def)
  have p1: "local_part ''al@x.com'' \<noteq> []" by (simp add: local_part_def)
  have p2: "list_all is_letter (local_part ''al@x.com'')"
    by (simp add: local_part_def is_letter_def lower_letters_def)
  have v: "generateBusinessInitials ''j.doe@x.com'' = ''JD''" by (simp add: initials_eval)
  from generateBusinessInitials_shape [OF h]
  have a: "length (generateBusinessInitials ''j.doe@x.com'') \<le> 2"
    and b: "list_all (\<lambda>c. c \<notin> set lower_letters) (generateBusinessInitials ''j.doe@x.com'')"
    by blast+
  from generateBusinessInitials_shape [OF h'] p1 p2
  have c: "uppercase_initials (generateBusinessInitials ''al@x.com'')"
    by blast
  have up: "toUpperCase ''x'' = ''X''" "toUpperCase ''y'' = ''Y''" "toUpperCase ''j'' = ''J''"
    "toUpperCase ''k'' = ''K''" "toUpperCase ''al'' = ''AL''"
    by (simp_all add: toUpperCase_def toUpperCase_char_def lower_letters_def upper_letters_def)
  have hx: "ascii ''x.y.z@q''" by (simp add: ascii_def)
  have x1: "local_part ''x.y.z@q'' = ''x'' @ CHR ''.'' # ''y.z''" by (simp add: local_part_def)
  have x2: "CHR ''.'' \<notin> set ''x''" by simp
  from generateBusinessInitials_shape [OF hx, of "''x''" "''y.z''"] x1 x2
  have "generateBusinessInitials ''x.y.z@q'' =
      toUpperCase (take 1 ''x'') @ toUpperCase (take 1 (takeWhile (\<lambda>c. c \<noteq> CHR ''.'') ''y.z''))"
    by blast
  then have x3: "generateBusinessInitials ''x.y.z@q'' = ''XY''" by (simp add: up)
  have hj: "ascii ''jan-kowalski@x.com''" by (simp add: ascii_def)
  have j0: "CHR ''.'' \<notin> set (local_part ''jan-kowalski@x.com'')" by (simp add: local_part_def)
  have j1: "local_part ''jan-kowalski@x.com'' = ''jan'' @ CHR ''-'' # ''kowalski''"
    by (simp add: local_part_def)
  have j2: "CHR ''-'' \<notin> set ''jan''" by simp
  from generateBusinessInitials_shape [OF hj, of "''jan''" "''kowalski''"] j0 j1 j2
  have "generateBusinessInitials ''jan-kowalski@x.com'' =
      toUpperCase (take 1 ''jan'') @
      toUpperCase (take 1 (takeWhile (\<lambda>c. c \<noteq> CHR ''-'') ''kowalski''))"
    by blast
  then have j3: "generateBusinessInitials ''jan-kowalski@x.com'' = ''JK''" by (simp add: up)
  have ha: "ascii ''alice@x.com''" by (simp add: ascii_def)
  have a0: "CHR ''.'' \<notin> set (local_part ''alice@x.com'')"
    and a1: "CHR ''-'' \<notin> set (local_part ''alice@x.com'')"
    and a2: "2 \<le> length (local_part ''alice@x.com'')"
    and a3: "take 2 (local_part ''alice@x.com'') = ''al''"
    by (simp_all add: local_part_def)
  from generateBusinessInitials_shape [OF ha] a0 a1 a2
  have "generateBusinessInitials ''alice@x.com'' = toUpperCase (take 2 (local_part ''alice@x.com''))"
    by blast
  then have a4: "generateBusinessInitials ''alice@x.com'' = ''AL''" by (simp add: a3 up)
  from h v a b p1 p2 c hx x1 x2 x3 hj j0 j1 j2 j3 ha a0 a1 a2 a4 show ?thesis by (intro conjI)
qed

section \<open>Settings and the cache\<close>

lemma updateSettings_frame:
  "cache (snd (updateSettings newSettings storage_ok st)) = cache st"
  "pendingRequests (snd (updateSettings newSettings storage_ok st)) = pendingRequests st"
  "promises (snd (updateSettings newSettings storage_ok st)) = promises st"
  "settings (snd (updateSettings newSettings storage_ok st)) = settings st ++ newSettings"
  by (simp_all add: updateSettings_def Let_def)

lemma try_google_reads_same: "try_google_reads s s net email domain = try_google s net email domain"
  by (simp add: try_google_reads_def try_google_def)

text \<open>With the same settings throughout, the resolution is \<open>getBusinessAvatar\<close>.\<close>

lemma getBusinessAvatar_reads_same:
  "getBusinessAvatar_reads s s s s net email = getBusinessAvatar s net email"
  by (simp add: getBusinessAvatar_reads_def getBusinessAvatar_def try_google_reads_same
      cong: if_cong option.case_cong prod.case_cong)

text \<open>An update reaches a resolution in flight: started under the default settings for
  \<open>a@x.com\<close> with every request failing, it probes the six favicon candidates, the logo
  service and the Google service; when the logo and the Google stage are switched off
  while the favicon stage is under way, it sends the six favicon probes only.\<close>

lemma update_reaches_resolution_in_flight:
  "fst (getBusinessAvatar default_settings offline ''a@x.com'') =
     map Head (faviconUrls ''x.com'') @
     [Head ''https://logo.clearbit.com/x.com'',
      Head ''https://www.google.com/s2/favicons?domain=x.com&sz=32''] \<and>
   fst (getBusinessAvatar_reads default_settings no_fallbacks no_fallbacks no_fallbacks
          offline ''a@x.com'') =
     map Head (faviconUrls ''x.com'')"
proof -
  have fv: "first_valid offline (faviconUrls ''x.com'') = (map Head (faviconUrls ''x.com''), None)"
    by (simp add: faviconUrls_def validateImageUrl_def offline_def)
  have kn: "getKnownBusinessFavicon ''x.com'' = None"
    by (simp add: getKnownBusinessFavicon_def knownFavicons_def)
  have tf: "\<And>s. try_favicon s offline ''a@x.com'' (Some ''x.com'') =
      (map Head (faviconUrls ''x.com''), None)"
    by (simp add: try_favicon_def getFaviconUrl_def kn fv)
  have ne: "map Head (faviconUrls ''x.com'') \<noteq> []" by (simp add: faviconUrls_def)
  have d: "truthy (default_settings ''enableFavicon'')" "truthy (default_settings ''enableLogoAPI'')"
    "truthy (default_settings ''enableGoogleFavicon'')"
    "default_settings ''avatarSize'' = Some (JNum 32)"
    by (simp_all add: default_settings_def)
  have n: "\<not> truthy (no_fallbacks ''enableLogoAPI'')"
    "\<not> truthy (no_fallbacks ''enableGoogleFavicon'')"
    by (simp_all add: no_fallbacks_def)
  have a: "fst (getBusinessAvatar default_settings offline ''a@x.com'') =
     map Head (faviconUrls ''x.com'') @
     [Head ''https://logo.clearbit.com/x.com'',
      Head ''https://www.google.com/s2/favicons?domain=x.com&sz=32'']"
    by (simp add: getBusinessAvatar_def dom_x tf d try_logo_def getCompanyLogo_def
        try_google_def validateImageUrl_def offline_def int_to_string_32 Let_def)
  have b: "fst (getBusinessAvatar_reads default_settings no_fallbacks no_fallbacks no_fallbacks
          offline ''a@x.com'') = map Head (faviconUrls ''x.com'')"
    using ne by (simp add: getBusinessAvatar_reads_def dom_x tf d n Let_def)
  from a b show ?thesis ..
qed

text \<open>
  C8, the claim as stated fails: an update does invalidate a cached entry. In \<open>two_full\<close>
  the entry of \<open>a@gmail.com\<close> was stored at time 2 and a read at time 10 is a cache hit;
  after \<open>updateSettings\<close> with \<open>cacheExpiry\<close> 1 the cache is the same list, and the same read
  at the same time is a miss that starts a new resolution.
\<close>

theorem lower_expiry_turns_hit_into_miss:
  "fst (getAvatar all_images 10 (Str ''a@gmail.com'') two_full) =
     Hit (gmail_avatar ''a@gmail.com'') \<and>
   cache (snd (updateSettings [''cacheExpiry'' \<mapsto> JNum 1] True two_full)) = cache two_full \<and>
   fst (getAvatar all_images 10 (Str ''a@gmail.com'')
          (snd (updateSettings [''cacheExpiry'' \<mapsto> JNum 1] True two_full))) =
     Started \<lparr>pid = 2, settles = Inr (gmail_avatar ''a@gmail.com'')\<rparr>"
  by (simp add: getAvatar_def fresh_entry_def js_lt_def norm_ag updateSettings_def
      two_full_fields two_cfg_simps gba_a Let_def)

text \<open>
  C8, as the code has it. \<open>updateSettings\<close> leaves the cached entries (keys, descriptors,
  timestamps, order) and the pending table as they are, whatever the new settings and
  whether or not the write to storage succeeds, and puts the old settings overridden by
  the new ones in place. Everything that reads the settings afterwards reads the new ones:
  the freshness of an entry already cached is judged against the new \<open>cacheExpiry\<close>, so
  only an update that does not set \<open>cacheExpiry\<close> is sure to leave every entry as fresh
  as it was; and a call that misses after the update starts its resolution with the new
  settings.
\<close>

theorem updateSettings_effect:
  assumes "st' = snd (updateSettings newSettings storage_ok st)"
  shows "cache st' = cache st \<and>
         pendingRequests st' = pendingRequests st \<and>
         settings st' = settings st ++ newSettings \<and>
         fresh_entry t k st' =
           (case map_of (cache st) k of
              None \<Rightarrow> None
            | Some cached \<Rightarrow>
                if js_lt (t - timestamp cached) ((settings st ++ newSettings) ''cacheExpiry'')
                then Some (data cached) else None) \<and>
         (newSettings ''cacheExpiry'' = None \<longrightarrow> fresh_entry t k st' = fresh_entry t k st) \<and>
         (email \<noteq> [] \<and> fresh_entry t (trim (toLowerCase email)) st' = None \<and>
          map_of (pendingRequests st) (trim (toLowerCase email)) = None \<longrightarrow>
            fst (getAvatar net t (Str email) st') =
              Started \<lparr>pid = promises st,
                       settles = snd (getBusinessAvatar (settings st ++ newSettings) net
                                        (trim (toLowerCase email)))\<rparr>)"
proof -
  note f = updateSettings_frame [of newSettings storage_ok st, folded assms]
  have c3: "fresh_entry t k st' =
      (case map_of (cache st) k of
         None \<Rightarrow> None
       | Some cached \<Rightarrow>
           if js_lt (t - timestamp cached) ((settings st ++ newSettings) ''cacheExpiry'')
           then Some (data cached) else None)"
    by (simp add: fresh_entry_def f cong: option.case_cong)
  have c4: "newSettings ''cacheExpiry'' = None \<longrightarrow> fresh_entry t k st' = fresh_entry t k st"
    unfolding c3 by (simp add: fresh_entry_def map_add_def cong: option.case_cong)
  have c5: "email \<noteq> [] \<and> fresh_entry t (trim (toLowerCase email)) st' = None \<and>
      map_of (pendingRequests st) (trim (toLowerCase email)) = None \<longrightarrow>
        fst (getAvatar net t (Str email) st') =
          Started \<lparr>pid = promises st,
                   settles = snd (getBusinessAvatar (settings st ++ newSettings) net
                                    (trim (toLowerCase email)))\<rparr>"
  proof (intro impI, elim conjE)
    let ?k = "trim (toLowerCase email)"
    assume ne: "email \<noteq> []" and fr: "fresh_entry t ?k st' = None"
      and pe: "map_of (pendingRequests st) ?k = None"
    from pe have pe': "map_of (pendingRequests st') ?k = None" by (simp add: f)
    obtain evs res where g: "getBusinessAvatar (settings st') net ?k = (evs, res)"
      by (cases "getBusinessAvatar (settings st') net ?k")
    from getAvatar_start [OF ne fr pe' g] g
    show "fst (getAvatar net t (Str email) st') =
        Started \<lparr>pid = promises st,
                 settles = snd (getBusinessAvatar (settings st ++ newSettings) net ?k)\<rparr>"
      by (simp add: f)
  qed
  from f(1) f(2) f(4) c3 c4 c5 show ?thesis by blast
qed

text \<open>The hypotheses of C8 hold in \<open>two_full\<close>: for the update of \<open>maxCacheSize\<close> to 3, which
  does not set \<open>cacheExpiry\<close>, and for the update of \<open>cacheExpiry\<close> to 1, after which a call
  for \<open>a@gmail.com\<close> at time 10 misses.\<close>

theorem updateSettings_effect_witness:
  "[''maxCacheSize'' \<mapsto> JNum 3] ''cacheExpiry'' = None \<and>
   fresh_entry 10 ''a@gmail.com'' (snd (updateSettings [''maxCacheSize'' \<mapsto> JNum 3] True two_full)) =
     fresh_entry 10 ''a@gmail.com'' two_full \<and>
   settings (snd (updateSettings [''cacheExpiry'' \<mapsto> JNum 1] True two_full)) =
     settings two_full ++ [''cacheExpiry'' \<mapsto> JNum 1] \<and>
   ''a@gmail.com'' \<noteq> [] \<and>
   fresh_entry 10 (trim (toLowerCase ''a@gmail.com''))
     (snd (updateSettings [''cacheExpiry'' \<mapsto> JNum 1] True two_full)) = None \<and>
   map_of (pendingRequests two_full) (trim (toLowerCase ''a@gmail.com'')) = None \<and>
   fst (getAvatar all_images 10 (Str ''a@gmail.com'')
          (snd (updateSettings [''cacheExpiry'' \<mapsto> JNum 1] True two_full))) =
     Started \<lparr>pid = 2, settles = Inr (gmail_avatar ''a@gmail.com'')\<rparr>"
proof -
  let ?m = "[''maxCacheSize'' \<mapsto> JNum 3] :: jsobj"
  let ?e = "[''cacheExpiry'' \<mapsto> JNum 1] :: jsobj"
  let ?sm = "snd (updateSettings ?m True two_full)"
  let ?se = "snd (updateSettings ?e True two_full)"
  have h0: "?m ''cacheExpiry'' = None" by simp
  from updateSettings_effect [of ?sm ?m True two_full 10 "''a@gmail.com''"] h0
  have w1: "fresh_entry 10 ''a@gmail.com'' ?sm = fresh_entry 10 ''a@gmail.com'' two_full"
    by blast
  from updateSettings_effect [of ?se ?e True two_full]
  have w2: "settings ?se = settings two_full ++ ?e" by blast
  have h1: "''a@gmail.com'' \<noteq> []" by simp
  have h2: "fresh_entry 10 (trim (toLowerCase ''a@gmail.com'')) ?se = None"
    by (simp add: norm_ag fresh_entry_def updateSettings_def two_full_fields js_lt_def)
  have h3: "map_of (pendingRequests two_full) (trim (toLowerCase ''a@gmail.com'')) = None"
    by (simp add: two_full_fields)
  have g: "snd (getBusinessAvatar (two_cfg ++ ?e) all_images
      (trim (toLowerCase ''a@gmail.com''))) = Inr (gmail_avatar ''a@gmail.com'')"
    by (simp add: norm_ag gba_a two_cfg_simps)
  from updateSettings_effect [of ?se ?e True two_full 10 "''a@gmail.com''" "''a@gmail.com''"
      all_images] h1 h2 h3
  have "fst (getAvatar all_images 10 (Str ''a@gmail.com'') ?se) =
      Started \<lparr>pid = promises two_full,
               settles = snd (getBusinessAvatar (settings two_full ++ ?e) all_images
                                (trim (toLowerCase ''a@gmail.com'')))\<rparr>"
    by blast
  then have w3: "fst (getAvatar all_images 10 (Str ''a@gmail.com'') ?se) =
      Started \<lparr>pid = 2, settles = Inr (gmail_avatar ''a@gmail.com'')\<rparr>"
    by (simp only: g two_full_fields)
  from h0 w1 w2 h1 h2 h3 w3 show ?thesis by (intro conjI)
qed

section \<open>Falsy arguments\<close>

text \<open>
  C9. For \<open>null\<close>, \<open>undefined\<close> and the empty string \<open>getAvatar\<close> returns \<open>null\<close> and the state
  is the one before the call: cache and pending table unchanged, and the trace unchanged,
  so no cache read, no resolution and no request happened.
\<close>

theorem getAvatar_falsy:
  "getAvatar net now Null st = (ReturnedNull, st) \<and>
   getAvatar net now Undefined st = (ReturnedNull, st) \<and>
   getAvatar net now (Str []) st = (ReturnedNull, st)"
  by (simp add: getAvatar_def)

section \<open>Refreshing a cached entry\<close>

text \<open>
  C10, the claim as stated fails: in \<open>two_full\<close> the cache is at capacity with
  \<open>a@gmail.com\<close> first; caching \<open>a@gmail.com\<close> again deletes the first key, which is
  \<open>a@gmail.com\<close> itself, and stores it anew at the end: the refreshed entry is now the newest.
\<close>

theorem refresh_at_capacity_moves_key:
  "map fst (cache two_full) = [''a@gmail.com'', ''b@gmail.com''] \<and>
   map fst (cache (cacheAvatar ''a@gmail.com'' (gmail_avatar ''a@gmail.com'') 86400003 two_full)) =
     [''b@gmail.com'', ''a@gmail.com'']"
  unfolding two_full_eval
  by (simp add: cacheAvatar_def js_ge_def two_cfg_simps)

text \<open>
  C10, below capacity: when the address is in the cache and the cache holds fewer than
  \<open>maxCacheSize\<close> entries, \<open>cacheAvatar\<close> leaves the order of the keys as it is and replaces
  the entry of that address only.
\<close>

theorem cacheAvatar_refresh_below_capacity:
  assumes "map_of (cache st) email = Some old"
    and "\<not> js_ge (int (length (cache st))) (settings st ''maxCacheSize'')"
  shows "map fst (cache (cacheAvatar email d now st)) = map fst (cache st) \<and>
         map_of (cache (cacheAvatar email d now st)) =
           (map_of (cache st))(email \<mapsto> \<lparr>data = d, timestamp = now\<rparr>)"
proof -
  from assms(1) have "email \<in> set (map fst (cache st))"
    by (force dest: map_of_SomeD)
  with assms(2) show ?thesis
    by (simp add: cacheAvatar_def update_keys update_conv')
qed

text \<open>The hypotheses of C10 hold for \<open>a@gmail.com\<close> in \<open>roomy\<close>.\<close>

theorem cacheAvatar_refresh_below_capacity_witness:
  "map_of (cache roomy) ''a@gmail.com'' =
     Some \<lparr>data = gmail_avatar ''a@gmail.com'', timestamp = 2\<rparr> \<and>
   \<not> js_ge (int (length (cache roomy))) (settings roomy ''maxCacheSize'') \<and>
   map fst (cache (cacheAvatar ''a@gmail.com'' (gmail_avatar ''a@gmail.com'') 86400003 roomy)) =
     [''a@gmail.com'', ''b@gmail.com''] \<and>
   map_of (cache (cacheAvatar ''a@gmail.com'' (gmail_avatar ''a@gmail.com'') 86400003 roomy))
     ''a@gmail.com'' = Some \<lparr>data = gmail_avatar ''a@gmail.com'', timestamp = 86400003\<rparr>"
proof -
  have c: "cache roomy = cache two_full"
    by (simp add: roomy_def updateSettings_def)
  have s: "settings roomy ''maxCacheSize'' = Some (JNum 3)"
    by (simp add: roomy_def updateSettings_def)
  have h1: "map_of (cache roomy) ''a@gmail.com'' =
      Some \<lparr>data = gmail_avatar ''a@gmail.com'', timestamp = 2\<rparr>"
    by (simp add: c two_full_fields)
  have h2: "\<not> js_ge (int (length (cache roomy))) (settings roomy ''maxCacheSize'')"
    by (simp add: c s two_full_fields js_ge_def)
  from cacheAvatar_refresh_below_capacity [OF h1 h2, of "gmail_avatar ''a@gmail.com''" 86400003]
    h1 h2
  show ?thesis
    by (simp add: c two_full_fields)
qed

end
